theory Spec2Isabelle
  imports
    Main
    "HOL-Library.Char_ord"
    "HOL-Library.List_Lexorder"
    "HOL-Library.Product_Lexorder"
    "HOL-Library.Multiset"
begin

section \<open>Strings and integers of the Go runtime\<close>

text \<open>
  Go strings are byte strings compared bytewise; \<open>string\<close> with the lexicographic order on
  \<open>char list\<close> is the same order. \<open>int32\<close> values are kept as \<open>int\<close>; the conversion
  \<open>int32(p)\<close> of a wider integer wraps modulo \<open>2 ^ 32\<close>.
\<close>

definition int32 :: "int \<Rightarrow> int" where
  "int32 p = (p + 2 ^ 31) mod 2 ^ 32 - 2 ^ 31"

text \<open>The decimal digits of a value that is not negative.\<close>

function posToString :: "int \<Rightarrow> string" where
  "posToString n =
     (if n < 10 then [char_of (48 + n)] else posToString (n div 10) @ [char_of (48 + n mod 10)])"
  by pat_completeness auto
termination
  by (relation "measure nat") auto

declare posToString.simps [simp del]

text \<open>\<open>strconv.Itoa\<close>: decimal rendering, with a leading minus sign for negative values.\<close>

definition Itoa :: "int \<Rightarrow> string" where
  "Itoa i = (if i < 0 then CHR ''-'' # posToString (- i) else posToString i)"

definition isDigit :: "char \<Rightarrow> bool" where
  "isDigit c = (48 \<le> (of_char c :: int) \<and> (of_char c :: int) \<le> 57)"

primrec digitsVal :: "int \<Rightarrow> string \<Rightarrow> int" where
  "digitsVal acc [] = acc"
| "digitsVal acc (c # cs) = digitsVal (acc * 10 + (of_char c - 48)) cs"

text \<open>
  \<open>strconv.Atoi\<close>: an optional sign, then at least one decimal digit and nothing else; a
  value outside the 64-bit \<open>int\<close> range is an error. \<open>None\<close> is the error return.
\<close>

definition Atoi :: "string \<Rightarrow> int option" where
  "Atoi s =
     (let neg = (s \<noteq> [] \<and> hd s = CHR ''-'');
          ds = (if s \<noteq> [] \<and> (hd s = CHR ''-'' \<or> hd s = CHR ''+'') then tl s else s)
      in if ds = [] \<or> \<not> list_all isDigit ds then None
         else (let n = digitsVal 0 ds; v = (if neg then - n else n)
               in if v < - (2 ^ 63) \<or> 2 ^ 63 \<le> v then None else Some v))"

text \<open>\<open>strings.HasPrefix(s, "/")\<close>.\<close>

definition HasPrefixSlash :: "string \<Rightarrow> bool" where
  "HasPrefixSlash s = (case s of [] \<Rightarrow> False | c # _ \<Rightarrow> c = CHR ''/'')"

section \<open>Cluster objects\<close>

datatype Protocol = ProtocolTCP | ProtocolUDP

text \<open>\<open>intstr.IntOrString\<close>: a tagged value, \<open>Type\<close> being \<open>intstr.Int\<close> or \<open>intstr.String\<close>.\<close>

datatype IntOrString = IntVal int | StrVal string

fun IntOrString_String :: "IntOrString \<Rightarrow> string" where
  "IntOrString_String (StrVal s) = s"
| "IntOrString_String (IntVal i) = Itoa i"

type_synonym labels = "(string \<times> string) list"

record ServicePort =
  sp_Name :: string
  sp_Protocol :: Protocol
  sp_Port :: int
  sp_TargetPort :: IntOrString

record Service =
  svc_Namespace :: string
  svc_Name :: string
  svc_Selector :: labels
  svc_Ports :: "ServicePort list"

record EndpointPort =
  epp_Port :: int
  epp_Protocol :: Protocol

record EndpointSubset =
  ss_Addresses :: "string list"
  ss_Ports :: "EndpointPort list"

record Endpoints =
  ep_Namespace :: string
  ep_Name :: string
  ep_Subsets :: "EndpointSubset list"

record Secret =
  sec_Namespace :: string
  sec_Name :: string
  sec_Data :: "(string \<times> string) list"

record ConfigMap =
  cm_Namespace :: string
  cm_Name :: string
  cm_Data :: "(string \<times> string) list"

record ContainerPort =
  cp_Name :: string
  cp_ContainerPort :: int
  cp_Protocol :: Protocol

record Pod =
  pod_Namespace :: string
  pod_Name :: string
  pod_Labels :: labels
  pod_NodeName :: string
  pod_Containers :: "ContainerPort list list"

datatype NodeAddressType = NodeHostName | NodeExternalIP | NodeInternalIP | NodeLegacyHostIP

record NodeAddress =
  na_Type :: NodeAddressType
  na_Address :: string

record Node =
  node_Name :: string
  node_Addresses :: "NodeAddress list"

record LoadBalancerIngress =
  lb_IP :: string
  lb_Hostname :: string

record HTTPIngressPath =
  path_Path :: string
  path_ServiceName :: string
  path_ServicePort :: IntOrString

text \<open>\<open>rule_HTTP\<close> is the pointer \<open>rule.HTTP\<close>: \<open>None\<close> is nil, \<open>Some paths\<close> its \<open>Paths\<close>.\<close>

record IngressRule =
  rule_Host :: string
  rule_HTTP :: "HTTPIngressPath list option"

text \<open>\<open>ing_TLS\<close> lists the \<open>SecretName\<close> of each entry of \<open>ing.Spec.TLS\<close>.\<close>

record Ingress =
  ing_Namespace :: string
  ing_Name :: string
  ing_Annotations :: labels
  ing_TLS :: "string list"
  ing_Rules :: "IngressRule list"
  ing_Status :: "LoadBalancerIngress list"

section \<open>The configuration model of package nghttpx\<close>

record UpstreamServer =
  us_Address :: string
  us_Port :: string
  us_Protocol :: string
  us_TLS :: bool
  us_SNI :: string
  us_DNS :: bool
  us_Affinity :: string

record PortBackendConfig =
  pbc_Proto :: string
  pbc_TLS :: bool
  pbc_SNI :: string
  pbc_DNS :: bool
  pbc_Affinity :: string

record Upstream =
  Name :: string
  Host :: string
  Path :: string
  RedirectIfNotTLS :: bool
  Backends :: "UpstreamServer list"

record ChecksumFile =
  cf_Path :: string
  cf_Content :: string
  cf_Checksum :: string

record TLSCred =
  Key :: ChecksumFile
  Cert :: ChecksumFile

record IngressConfig =
  TLS :: bool
  DefaultTLSCred :: "TLSCred option"
  SubTLSCred :: "TLSCred list"
  Upstreams :: "Upstream list"

text \<open>\<open>nghttpx.NewIngressConfig()\<close>: every field at its zero value.\<close>

definition NewIngressConfig :: IngressConfig where
  "NewIngressConfig = \<lparr>TLS = False, DefaultTLSCred = None, SubTLSCred = [], Upstreams = []\<rparr>"

section \<open>Errors and lookups\<close>

datatype error =
    ListerError
  | SecretLookupError
  | SecretDeleted
  | NoCertificate
  | NoPrivateKey
  | InvalidCertificate
  | InvalidPrivateKey
  | CredFileError
  | ConfigMapLookupError
  | ReloadError
  | PodNotFound
  | NoPods
  | NoSuitablePort
  | EndpointsNotFound
  | NodeLookupError
  | NodeDeleted
  | NoExternalIP
  | IndexOutOfRange
  | IngressNotFound
  | ApiError
  | ErrWaitTimeout

text \<open>The triple \<open>(obj, exists, err)\<close> that \<open>GetByKey\<close> of a cache store returns.\<close>

datatype 'a lookup = LookupErr | NotExists | Exists 'a

text \<open>
  The functions of package nghttpx and of the annotation helpers that the controller calls
  and whose bodies are not part of the controller source are parameters of the model.
\<close>

record nghttpx_pkg =
  NewDefaultServer :: UpstreamServer
  DefaultPortBackendConfig :: PortBackendConfig
  FixupPortBackendConfig :: "PortBackendConfig \<Rightarrow> string \<Rightarrow> string \<Rightarrow> PortBackendConfig"
  CommonNames :: "string \<Rightarrow> string list option"
  CheckPrivateKey :: "string \<Rightarrow> bool"
  CreateTLSCred :: "string \<Rightarrow> string \<Rightarrow> string \<Rightarrow> TLSCred option"
  TLSCredPrefix :: "Secret \<Rightarrow> string"
  getBackendConfig :: "labels \<Rightarrow> string \<rightharpoonup> (string \<rightharpoonup> PortBackendConfig)"
  ReadConfig :: "IngressConfig \<Rightarrow> ConfigMap \<Rightarrow> IngressConfig"
  CheckAndReload :: "IngressConfig \<Rightarrow> error + bool"

section \<open>The work queue\<close>

text \<open>
  \<open>workqueue.Type\<close> of the client library: \<open>Add\<close> drops an item that is already dirty or
  arrives after shutdown, and defers one that is being processed until \<open>Done\<close>.
\<close>

record workqueue =
  wq_queue :: "string list"
  wq_dirty :: "string list"
  wq_processing :: "string list"
  wq_shuttingDown :: bool

definition wq_Add :: "string \<Rightarrow> workqueue \<Rightarrow> workqueue" where
  "wq_Add item q =
     (if wq_shuttingDown q then q
      else if item \<in> set (wq_dirty q) then q
      else if item \<in> set (wq_processing q) then q\<lparr>wq_dirty := wq_dirty q @ [item]\<rparr>
      else q\<lparr>wq_dirty := wq_dirty q @ [item], wq_queue := wq_queue q @ [item]\<rparr>)"

text \<open>\<open>Get\<close> on an empty queue blocks (or reports shutdown); \<open>None\<close> stands for both.\<close>

definition wq_Get :: "workqueue \<Rightarrow> (string \<times> workqueue) option" where
  "wq_Get q =
     (case wq_queue q of
        [] \<Rightarrow> None
      | item # rest \<Rightarrow>
          Some (item, q\<lparr>wq_queue := rest,
                         wq_processing := wq_processing q @ [item],
                         wq_dirty := removeAll item (wq_dirty q)\<rparr>))"

definition wq_Done :: "string \<Rightarrow> workqueue \<Rightarrow> workqueue" where
  "wq_Done item q =
     (let q' = q\<lparr>wq_processing := removeAll item (wq_processing q)\<rparr>
      in if item \<in> set (wq_dirty q') then q'\<lparr>wq_queue := wq_queue q' @ [item]\<rparr> else q')"

section \<open>The controller\<close>

record PodInfo =
  PodName :: string
  PodNamespace :: string

record LoadBalancerController =
  pkg :: nghttpx_pkg
  ingLister :: "error + Ingress list"
  svcLister :: "string \<Rightarrow> Service lookup"
  epLister :: "Endpoints list"
  secretLister :: "string \<Rightarrow> Secret lookup"
  cmLister :: "string \<Rightarrow> ConfigMap lookup"
  podLister :: "error + Pod list"
  nodeLister :: "string \<Rightarrow> Node lookup"
  podInfo :: PodInfo
  defaultSvc :: string
  ngxConfigMap :: string
  defaultTLSSecret :: string
  ingressClass :: string
  allowInternalIP :: bool
  syncQueue :: workqueue

definition syncKey :: string where
  "syncKey = ''ingress''"

section \<open>Class filtering\<close>

text \<open>
  Modelled from the spec: \<open>ingressAnnotation.getIngressClass\<close> is not part of the controller
  source. It reads the class annotation of a rule, the empty string when the annotation is
  unset (``Class matching: empty string or configured class name passes''; the comment of
  \<open>validateIngressClass\<close> names the annotation).
\<close>

definition getIngressClass :: "labels \<Rightarrow> string" where
  "getIngressClass ann =
     (case map_of ann ''kubernetes.io/ingress.class'' of None \<Rightarrow> [] | Some v \<Rightarrow> v)"

definition validateIngressClass :: "LoadBalancerController \<Rightarrow> Ingress \<Rightarrow> bool" where
  "validateIngressClass lbc ing =
     (let c = getIngressClass (ing_Annotations ing) in c = [] \<or> c = ingressClass lbc)"

section \<open>TLS credentials\<close>

definition createTLSCredFromSecret :: "LoadBalancerController \<Rightarrow> Secret \<Rightarrow> error + TLSCred" where
  "createTLSCredFromSecret lbc secret =
     (case map_of (sec_Data secret) ''tls.crt'' of
        None \<Rightarrow> Inl NoCertificate
      | Some cert \<Rightarrow>
          (case map_of (sec_Data secret) ''tls.key'' of
             None \<Rightarrow> Inl NoPrivateKey
           | Some key \<Rightarrow>
               if CommonNames (pkg lbc) cert = None then Inl InvalidCertificate
               else if \<not> CheckPrivateKey (pkg lbc) key then Inl InvalidPrivateKey
               else (case CreateTLSCred (pkg lbc) (TLSCredPrefix (pkg lbc) secret) cert key of
                       None \<Rightarrow> Inl CredFileError
                     | Some tlsCred \<Rightarrow> Inr tlsCred)))"

definition getTLSCredFromSecret :: "LoadBalancerController \<Rightarrow> string \<Rightarrow> error + TLSCred" where
  "getTLSCredFromSecret lbc secretKey =
     (case secretLister lbc secretKey of
        LookupErr \<Rightarrow> Inl SecretLookupError
      | NotExists \<Rightarrow> Inl SecretDeleted
      | Exists secret \<Rightarrow> createTLSCredFromSecret lbc secret)"

text \<open>The loop of \<open>getTLSCredFromIngress\<close> over \<open>ing.Spec.TLS\<close>; the first failure ends it.\<close>

primrec tlsCredLoop :: "LoadBalancerController \<Rightarrow> string \<Rightarrow> string list \<Rightarrow> error + TLSCred list" where
  "tlsCredLoop lbc ns [] = Inr []"
| "tlsCredLoop lbc ns (secretName # rest) =
     (case secretLister lbc (ns @ ''/'' @ secretName) of
        LookupErr \<Rightarrow> Inl SecretLookupError
      | NotExists \<Rightarrow> Inl SecretDeleted
      | Exists secret \<Rightarrow>
          (case createTLSCredFromSecret lbc secret of
             Inl e \<Rightarrow> Inl e
           | Inr tlsCred \<Rightarrow>
               (case tlsCredLoop lbc ns rest of
                  Inl e \<Rightarrow> Inl e
                | Inr pems \<Rightarrow> Inr (tlsCred # pems))))"

definition getTLSCredFromIngress :: "LoadBalancerController \<Rightarrow> Ingress \<Rightarrow> error + TLSCred list" where
  "getTLSCredFromIngress lbc ing = tlsCredLoop lbc (ing_Namespace ing) (ing_TLS ing)"

section \<open>Endpoints of a service port\<close>

text \<open>\<open>labels.Set(sel).AsSelector().Matches(labels.Set(ls))\<close>: every pair of \<open>sel\<close> is in \<open>ls\<close>.\<close>

definition selectorMatches :: "labels \<Rightarrow> labels \<Rightarrow> bool" where
  "selectorMatches sel ls = list_all (\<lambda>kv. map_of ls (fst kv) = Some (snd kv)) sel"

text \<open>\<open>lbc.podLister.Pods(ns).List(selector)\<close>.\<close>

definition listPods :: "LoadBalancerController \<Rightarrow> string \<Rightarrow> labels \<Rightarrow> error + Pod list" where
  "listPods lbc ns sel =
     (case podLister lbc of
        Inl e \<Rightarrow> Inl e
      | Inr pods \<Rightarrow>
          Inr (filter (\<lambda>p. pod_Namespace p = ns \<and> selectorMatches sel (pod_Labels p)) pods))"

text \<open>
  \<open>podutil.FindPort\<close>: the first container port of the pod, in declaration order, with the
  name of the target port and the protocol of the service port.
\<close>

definition FindPort :: "Pod \<Rightarrow> ServicePort \<Rightarrow> error + int" where
  "FindPort pod svcPort =
     (case sp_TargetPort svcPort of
        IntVal i \<Rightarrow> Inr i
      | StrVal name \<Rightarrow>
          (case find (\<lambda>port. cp_Name port = name \<and> cp_Protocol port = sp_Protocol svcPort)
                  (concat (pod_Containers pod)) of
             None \<Rightarrow> Inl NoSuitablePort
           | Some port \<Rightarrow> Inr (cp_ContainerPort port)))"

definition getNamedPortFromPod :: "LoadBalancerController \<Rightarrow> Service \<Rightarrow> ServicePort \<Rightarrow> error + int" where
  "getNamedPortFromPod lbc svc servicePort =
     (case listPods lbc (svc_Namespace svc) (svc_Selector svc) of
        Inl e \<Rightarrow> Inl e
      | Inr [] \<Rightarrow> Inl NoPods
      | Inr (pod # _) \<Rightarrow>
          (case FindPort pod servicePort of
             Inl e \<Rightarrow> Inl e
           | Inr port \<Rightarrow> Inr (int32 port)))"

text \<open>\<open>lbc.epLister.GetServiceEndpoints(s)\<close>: the first stored object with the service's name.\<close>

definition GetServiceEndpoints :: "LoadBalancerController \<Rightarrow> Service \<Rightarrow> error + Endpoints" where
  "GetServiceEndpoints lbc s =
     (case find (\<lambda>ep. svc_Name s = ep_Name ep \<and> svc_Namespace s = ep_Namespace ep) (epLister lbc) of
        None \<Rightarrow> Inl EndpointsNotFound
      | Some ep \<Rightarrow> Inr ep)"

text \<open>
  The body of the loop of \<open>getEndpoints\<close> over the ports of a subset, up to the test
  \<open>targetPort == 0\<close>: \<open>None\<close> is a \<open>continue\<close>, \<open>Some targetPort\<close> else.
\<close>

definition epTargetPort ::
  "LoadBalancerController \<Rightarrow> Service \<Rightarrow> ServicePort \<Rightarrow> Protocol \<Rightarrow> EndpointPort \<Rightarrow> int option" where
  "epTargetPort lbc s servicePort proto epPort =
     (if epp_Protocol epPort \<noteq> proto then None
      else
        (case (case sp_TargetPort servicePort of
                 IntVal v \<Rightarrow> Some (if epp_Port epPort = v then epp_Port epPort else 0)
               | StrVal str \<Rightarrow>
                   if str = [] then Some 0
                   else (case (case Atoi str of
                                 None \<Rightarrow> (case getNamedPortFromPod lbc s servicePort of
                                             Inl e \<Rightarrow> None
                                           | Inr port \<Rightarrow> Some port)
                               | Some p \<Rightarrow> Some (int32 p)) of
                           None \<Rightarrow> None
                         | Some port \<Rightarrow> Some (if epp_Port epPort = port then port else 0))) of
           None \<Rightarrow> None
         | Some targetPort \<Rightarrow> if targetPort = 0 then None else Some targetPort))"

definition mkUpstreamServer :: "PortBackendConfig \<Rightarrow> int \<Rightarrow> string \<Rightarrow> UpstreamServer" where
  "mkUpstreamServer portBackendConfig targetPort ip =
     \<lparr>us_Address = ip,
      us_Port = Itoa targetPort,
      us_Protocol = pbc_Proto portBackendConfig,
      us_TLS = pbc_TLS portBackendConfig,
      us_SNI = pbc_SNI portBackendConfig,
      us_DNS = pbc_DNS portBackendConfig,
      us_Affinity = pbc_Affinity portBackendConfig\<rparr>"

definition subsetServers ::
  "LoadBalancerController \<Rightarrow> Service \<Rightarrow> ServicePort \<Rightarrow> Protocol \<Rightarrow> PortBackendConfig \<Rightarrow>
   EndpointSubset \<Rightarrow> UpstreamServer list" where
  "subsetServers lbc s servicePort proto portBackendConfig ss =
     concat (map (\<lambda>epPort.
                    case epTargetPort lbc s servicePort proto epPort of
                      None \<Rightarrow> []
                    | Some targetPort \<Rightarrow>
                        map (mkUpstreamServer portBackendConfig targetPort) (ss_Addresses ss))
                 (ss_Ports ss))"

definition getEndpoints ::
  "LoadBalancerController \<Rightarrow> Service \<Rightarrow> ServicePort \<Rightarrow> Protocol \<Rightarrow> PortBackendConfig \<Rightarrow>
   UpstreamServer list" where
  "getEndpoints lbc s servicePort proto portBackendConfig =
     (case GetServiceEndpoints lbc s of
        Inl e \<Rightarrow> []
      | Inr ep \<Rightarrow> concat (map (subsetServers lbc s servicePort proto portBackendConfig) (ep_Subsets ep)))"

section \<open>The default upstream\<close>

text \<open>
  \<open>svc.Spec.Ports[0]\<close> panics on a service without ports; the panic is the result
  \<open>Inl IndexOutOfRange\<close>. \<open>Host\<close> and \<open>Path\<close> are not set and keep their zero value.
\<close>

definition getDefaultUpstream :: "LoadBalancerController \<Rightarrow> error + Upstream" where
  "getDefaultUpstream lbc =
     (let upstream = \<lparr>Name = defaultSvc lbc, Host = [], Path = [],
                      RedirectIfNotTLS = (defaultTLSSecret lbc \<noteq> []), Backends = []\<rparr>
      in case svcLister lbc (defaultSvc lbc) of
           LookupErr \<Rightarrow> Inr (upstream\<lparr>Backends := [NewDefaultServer (pkg lbc)]\<rparr>)
         | NotExists \<Rightarrow> Inr (upstream\<lparr>Backends := [NewDefaultServer (pkg lbc)]\<rparr>)
         | Exists svc \<Rightarrow>
             (case svc_Ports svc of
                [] \<Rightarrow> Inl IndexOutOfRange
              | port0 # _ \<Rightarrow>
                  (let eps = getEndpoints lbc svc port0 ProtocolTCP (DefaultPortBackendConfig (pkg lbc))
                   in if eps = [] then Inr (upstream\<lparr>Backends := [NewDefaultServer (pkg lbc)]\<rparr>)
                      else Inr (upstream\<lparr>Backends := eps\<rparr>))))"

section \<open>The config resolver\<close>

text \<open>
  The loop over \<open>svc.Spec.Ports\<close>: the first port that matches \<open>bp\<close> decides, both of its
  branches end with \<open>break\<close>. The result is \<open>ups.Backends\<close> after the loop.
\<close>

definition servicePortMatches :: "string \<Rightarrow> ServicePort \<Rightarrow> bool" where
  "servicePortMatches bp servicePort =
     (Itoa (sp_Port servicePort) = bp
      \<or> IntOrString_String (sp_TargetPort servicePort) = bp
      \<or> sp_Name servicePort = bp)"

primrec servicePortLoop ::
  "LoadBalancerController \<Rightarrow> Service \<Rightarrow> string \<Rightarrow> string \<Rightarrow> (string \<rightharpoonup> PortBackendConfig) \<Rightarrow>
   ServicePort list \<Rightarrow> UpstreamServer list" where
  "servicePortLoop lbc svc svcKey bp svcBackendConfig [] = []"
| "servicePortLoop lbc svc svcKey bp svcBackendConfig (servicePort # rest) =
     (if servicePortMatches bp servicePort then
        (let portBackendConfig =
               (case svcBackendConfig bp of
                  Some c \<Rightarrow> FixupPortBackendConfig (pkg lbc) c svcKey bp
                | None \<Rightarrow> DefaultPortBackendConfig (pkg lbc));
             eps = getEndpoints lbc svc servicePort ProtocolTCP portBackendConfig
         in if eps = [] then [] else eps)
      else servicePortLoop lbc svc svcKey bp svcBackendConfig rest)"

text \<open>The body of the loop over \<open>rule.HTTP.Paths\<close>: \<open>None\<close> is a \<open>continue\<close>.\<close>

definition pathUpstream ::
  "LoadBalancerController \<Rightarrow> Ingress \<Rightarrow> bool \<Rightarrow> (string \<rightharpoonup> (string \<rightharpoonup> PortBackendConfig)) \<Rightarrow>
   IngressRule \<Rightarrow> HTTPIngressPath \<Rightarrow> Upstream option" where
  "pathUpstream lbc ing requireTLS backendConfig rule path =
     (if path_Path path \<noteq> [] \<and> \<not> HasPrefixSlash (path_Path path) then None
      else
        (let normalizedPath = (if path_Path path = [] then ''/'' else path_Path path);
             upsName = ing_Namespace ing @ ''/'' @ path_ServiceName path @ '','' @
                       IntOrString_String (path_ServicePort path) @ '';'' @
                       rule_Host rule @ normalizedPath;
             ups = \<lparr>Name = upsName, Host = rule_Host rule, Path = normalizedPath,
                    RedirectIfNotTLS = (requireTLS \<or> defaultTLSSecret lbc \<noteq> []),
                    Backends = []\<rparr>;
             svcKey = ing_Namespace ing @ ''/'' @ path_ServiceName path
         in case svcLister lbc svcKey of
              LookupErr \<Rightarrow> None
            | NotExists \<Rightarrow> None
            | Exists svc \<Rightarrow>
                (let bp = IntOrString_String (path_ServicePort path);
                     svcBackendConfig =
                       (case backendConfig (path_ServiceName path) of
                          None \<Rightarrow> Map.empty
                        | Some m \<Rightarrow> m);
                     backends = servicePortLoop lbc svc svcKey bp svcBackendConfig (svc_Ports svc)
                 in if backends = [] then None else Some (ups\<lparr>Backends := backends\<rparr>))))"

definition ruleUpstreams ::
  "LoadBalancerController \<Rightarrow> Ingress \<Rightarrow> bool \<Rightarrow> (string \<rightharpoonup> (string \<rightharpoonup> PortBackendConfig)) \<Rightarrow>
   IngressRule \<Rightarrow> Upstream list" where
  "ruleUpstreams lbc ing requireTLS backendConfig rule =
     (case rule_HTTP rule of
        None \<Rightarrow> []
      | Some paths \<Rightarrow> List.map_filter (pathUpstream lbc ing requireTLS backendConfig rule) paths)"

text \<open>
  The body of the loop over the rules resources: what one of them appends to \<open>pems\<close> and to
  \<open>upstreams\<close>. A resource of another class, or one whose TLS section cannot be resolved,
  appends nothing.
\<close>

definition ingressContribution ::
  "LoadBalancerController \<Rightarrow> Ingress \<Rightarrow> TLSCred list \<times> Upstream list" where
  "ingressContribution lbc ing =
     (if \<not> validateIngressClass lbc ing then ([], [])
      else
        (case getTLSCredFromIngress lbc ing of
           Inl e \<Rightarrow> ([], [])
         | Inr ingPems \<Rightarrow>
             (let requireTLS = (ingPems \<noteq> []);
                  backendConfig = getBackendConfig (pkg lbc) (ing_Annotations ing)
              in (ingPems,
                  concat (map (ruleUpstreams lbc ing requireTLS backendConfig) (ing_Rules ing))))))"

primrec ingressLoop ::
  "LoadBalancerController \<Rightarrow> Ingress list \<Rightarrow> TLSCred list \<times> Upstream list" where
  "ingressLoop lbc [] = ([], [])"
| "ingressLoop lbc (ing # rest) =
     (fst (ingressContribution lbc ing) @ fst (ingressLoop lbc rest),
      snd (ingressContribution lbc ing) @ snd (ingressLoop lbc rest))"

text \<open>
  Modelled from the spec: \<open>nghttpx.RemoveDuplicatePems\<close> is not part of the controller
  source. It takes the list sorted by identity (the path of the key file) and keeps the
  first credential of every identity (``TLSCred list sorted and deduplicated by identity'').
\<close>

fun RemoveDuplicatePems :: "TLSCred list \<Rightarrow> TLSCred list" where
  "RemoveDuplicatePems [] = []"
| "RemoveDuplicatePems [p] = [p]"
| "RemoveDuplicatePems (p # q # rest) =
     (if cf_Path (Key p) = cf_Path (Key q) then RemoveDuplicatePems (p # rest)
      else p # RemoveDuplicatePems (q # rest))"

text \<open>The loop that removes the default key pair from \<open>pems\<close>: the first match, then \<open>break\<close>.\<close>

primrec removeDefaultPem :: "string \<Rightarrow> TLSCred list \<Rightarrow> TLSCred list" where
  "removeDefaultPem keyPath [] = []"
| "removeDefaultPem keyPath (p # rest) =
     (if keyPath = cf_Path (Key p) then rest else p # removeDefaultPem keyPath rest)"

text \<open>
  The loop that removes duplicate servers: \<open>uniq\<close> is \<open>uniqBackends\<close>, never empty, and the
  list argument what is left of \<open>backends[1:]\<close>.
\<close>

primrec uniqBackendsLoop :: "UpstreamServer list \<Rightarrow> UpstreamServer list \<Rightarrow> UpstreamServer list" where
  "uniqBackendsLoop uniq [] = uniq"
| "uniqBackendsLoop uniq (sv # rest) =
     (let lastBackend = last uniq
      in if us_Address lastBackend = us_Address sv \<and> us_Port lastBackend = us_Port sv
         then uniqBackendsLoop uniq rest
         else uniqBackendsLoop (uniq @ [sv]) rest)"

text \<open>
  \<open>sort.Slice\<close> with a comparison of keys is modelled by the insertion sort \<open>sort_key\<close>.
  \<open>sort.Slice\<close> promises no order among entries of equal keys; \<open>sort_key\<close> keeps the
  order they had. \<open>backends[0]\<close> panics on an empty list.
\<close>

definition backendKey :: "UpstreamServer \<Rightarrow> string \<times> string" where
  "backendKey b = (us_Address b, us_Port b)"

definition sortUniqBackends :: "Upstream \<Rightarrow> error + Upstream" where
  "sortUniqBackends value =
     (case sort_key backendKey (Backends value) of
        [] \<Rightarrow> Inl IndexOutOfRange
      | b0 # rest \<Rightarrow> Inr (value\<lparr>Backends := uniqBackendsLoop [b0] rest\<rparr>))"

primrec backendsLoop :: "Upstream list \<Rightarrow> error + Upstream list" where
  "backendsLoop [] = Inr []"
| "backendsLoop (value # rest) =
     (case sortUniqBackends value of
        Inl e \<Rightarrow> Inl e
      | Inr value' \<Rightarrow>
          (case backendsLoop rest of
             Inl e \<Rightarrow> Inl e
           | Inr rest' \<Rightarrow> Inr (value' # rest')))"

definition isDefaultUpstream :: "Upstream \<Rightarrow> bool" where
  "isDefaultUpstream upstream = (Host upstream = [] \<and> (Path upstream = [] \<or> Path upstream = ''/''))"

definition getUpstreamServers ::
  "LoadBalancerController \<Rightarrow> Ingress list \<Rightarrow> error + IngressConfig" where
  "getUpstreamServers lbc ings =
     (case (if defaultTLSSecret lbc \<noteq> []
            then (case getTLSCredFromSecret lbc (defaultTLSSecret lbc) of
                    Inl e \<Rightarrow> Inl e
                  | Inr tlsCred \<Rightarrow> Inr (NewIngressConfig\<lparr>TLS := True, DefaultTLSCred := Some tlsCred\<rparr>))
            else Inr NewIngressConfig) of
        Inl e \<Rightarrow> Inl e
      | Inr ingConfig0 \<Rightarrow>
          (let pems = RemoveDuplicatePems
                        (sort_key (\<lambda>p. cf_Path (Key p)) (fst (ingressLoop lbc ings)));
               upstreams = snd (ingressLoop lbc ings);
               ingConfig =
                 (case DefaultTLSCred ingConfig0 of
                    Some d \<Rightarrow> ingConfig0\<lparr>SubTLSCred := removeDefaultPem (cf_Path (Key d)) pems\<rparr>
                  | None \<Rightarrow>
                      (case pems of
                         [] \<Rightarrow> ingConfig0
                       | p0 # ps \<Rightarrow>
                           ingConfig0\<lparr>TLS := True, DefaultTLSCred := Some p0, SubTLSCred := ps\<rparr>));
               defaultUpstreamFound = list_ex isDefaultUpstream upstreams
           in case (if defaultUpstreamFound then Inr upstreams
                    else (case getDefaultUpstream lbc of
                            Inl e \<Rightarrow> Inl e
                          | Inr d \<Rightarrow> Inr (upstreams @ [d]))) of
                Inl e \<Rightarrow> Inl e
              | Inr upstreams' \<Rightarrow>
                  (case backendsLoop (sort_key Name upstreams') of
                     Inl e \<Rightarrow> Inl e
                   | Inr upstreams'' \<Rightarrow> Inr (ingConfig\<lparr>Upstreams := upstreams''\<rparr>))))"

section \<open>Notifications\<close>

definition enqueue :: "LoadBalancerController \<Rightarrow> string \<Rightarrow> LoadBalancerController" where
  "enqueue lbc key = lbc\<lparr>syncQueue := wq_Add key (syncQueue lbc)\<rparr>"

text \<open>\<open>lbc.ingLister.Ingresses(ns).List(labels.Everything())\<close>.\<close>

definition listIngresses :: "LoadBalancerController \<Rightarrow> string \<Rightarrow> error + Ingress list" where
  "listIngresses lbc ns =
     (case ingLister lbc of
        Inl e \<Rightarrow> Inl e
      | Inr ings \<Rightarrow> Inr (filter (\<lambda>ing. ing_Namespace ing = ns) ings))"

definition rulePaths :: "IngressRule \<Rightarrow> HTTPIngressPath list" where
  "rulePaths rule = (case rule_HTTP rule of None \<Rightarrow> [] | Some paths \<Rightarrow> paths)"

definition endpointsReferenced :: "LoadBalancerController \<Rightarrow> Endpoints \<Rightarrow> bool" where
  "endpointsReferenced lbc ep =
     (if ep_Namespace ep @ ''/'' @ ep_Name ep = defaultSvc lbc then True
      else (case listIngresses lbc (ep_Namespace ep) of
              Inl e \<Rightarrow> False
            | Inr ings \<Rightarrow>
                list_ex (\<lambda>ing. validateIngressClass lbc ing \<and>
                          list_ex (\<lambda>rule. list_ex (\<lambda>path. ep_Name ep = path_ServiceName path)
                                                   (rulePaths rule))
                                  (ing_Rules ing))
                        ings))"

definition secretReferenced :: "LoadBalancerController \<Rightarrow> string \<Rightarrow> string \<Rightarrow> bool" where
  "secretReferenced lbc namespace name =
     (if defaultTLSSecret lbc = namespace @ ''/'' @ name then True
      else (case listIngresses lbc namespace of
              Inl e \<Rightarrow> False
            | Inr ings \<Rightarrow>
                list_ex (\<lambda>ing. validateIngressClass lbc ing \<and>
                          list_ex (\<lambda>secretName. secretName = name) (ing_TLS ing))
                        ings))"

definition podReferenced :: "LoadBalancerController \<Rightarrow> Pod \<Rightarrow> bool" where
  "podReferenced lbc pod =
     (if (case svcLister lbc (defaultSvc lbc) of
            Exists svc \<Rightarrow> selectorMatches (svc_Selector svc) (pod_Labels pod)
          | _ \<Rightarrow> False) then True
      else (case listIngresses lbc (pod_Namespace pod) of
              Inl e \<Rightarrow> False
            | Inr ings \<Rightarrow>
                list_ex (\<lambda>ing. validateIngressClass lbc ing \<and>
                          list_ex (\<lambda>rule.
                                     list_ex (\<lambda>path.
                                                case svcLister lbc (pod_Namespace pod @ ''/'' @
                                                                    path_ServiceName path) of
                                                  Exists svc \<Rightarrow>
                                                    selectorMatches (svc_Selector svc) (pod_Labels pod)
                                                | _ \<Rightarrow> False)
                                             (rulePaths rule))
                                  (ing_Rules ing))
                        ings))"

text \<open>
  The update handlers. \<open>reflect.DeepEqual(old, cur)\<close> is equality of the two objects; objects
  that are deeply equal in Go are equal values here.
\<close>

definition updateEndpointsNotification ::
  "LoadBalancerController \<Rightarrow> Endpoints \<Rightarrow> Endpoints \<Rightarrow> LoadBalancerController" where
  "updateEndpointsNotification lbc old cur =
     (if old = cur then lbc
      else if \<not> endpointsReferenced lbc old \<and> \<not> endpointsReferenced lbc cur then lbc
      else enqueue lbc syncKey)"

definition updateSecretNotification ::
  "LoadBalancerController \<Rightarrow> Secret \<Rightarrow> Secret \<Rightarrow> LoadBalancerController" where
  "updateSecretNotification lbc old cur =
     (if old = cur then lbc
      else if \<not> secretReferenced lbc (sec_Namespace old) (sec_Name old)
              \<and> \<not> secretReferenced lbc (sec_Namespace cur) (sec_Name cur) then lbc
      else enqueue lbc syncKey)"

definition updateConfigMapNotification ::
  "LoadBalancerController \<Rightarrow> ConfigMap \<Rightarrow> ConfigMap \<Rightarrow> LoadBalancerController" where
  "updateConfigMapNotification lbc old cur =
     (if old = cur then lbc
      else if cm_Namespace cur @ ''/'' @ cm_Name cur \<noteq> ngxConfigMap lbc then lbc
      else enqueue lbc syncKey)"

definition updatePodNotification ::
  "LoadBalancerController \<Rightarrow> Pod \<Rightarrow> Pod \<Rightarrow> LoadBalancerController" where
  "updatePodNotification lbc old cur =
     (if old = cur then lbc
      else if \<not> podReferenced lbc old \<and> \<not> podReferenced lbc cur then lbc
      else enqueue lbc syncKey)"

section \<open>The sync handler and the worker\<close>

definition emptyConfigMap :: ConfigMap where
  "emptyConfigMap = \<lparr>cm_Namespace = [], cm_Name = [], cm_Data = []\<rparr>"

definition getConfigMap :: "LoadBalancerController \<Rightarrow> string \<Rightarrow> error + ConfigMap" where
  "getConfigMap lbc cmKey =
     (if cmKey = [] then Inr emptyConfigMap
      else (case cmLister lbc cmKey of
              LookupErr \<Rightarrow> Inl ConfigMapLookupError
            | NotExists \<Rightarrow> Inr emptyConfigMap
            | Exists cm \<Rightarrow> Inr cm))"

definition retryOrForget ::
  "LoadBalancerController \<Rightarrow> string \<Rightarrow> bool \<Rightarrow> LoadBalancerController" where
  "retryOrForget lbc key requeue =
     (if requeue then lbc\<lparr>syncQueue := wq_Add key (syncQueue lbc)\<rparr> else lbc)"

text \<open>
  \<open>sync\<close> returns its error (\<open>None\<close> is nil) and the controller after the deferred call of
  \<open>retryOrForget\<close>. The variable \<open>retry\<close> is set once, to \<open>false\<close>, and the deferred call
  reads it when \<open>sync\<close> returns. Waiting for the rate limiter has no effect on the state.
\<close>

definition sync :: "LoadBalancerController \<Rightarrow> string \<Rightarrow> error option \<times> LoadBalancerController" where
  "sync lbc key =
     (let retry = False;
          err =
            (case ingLister lbc of
               Inl e \<Rightarrow> Some e
             | Inr ings \<Rightarrow>
                 (case getUpstreamServers lbc ings of
                    Inl e \<Rightarrow> Some e
                  | Inr ingConfig \<Rightarrow>
                      (case getConfigMap lbc (ngxConfigMap lbc) of
                         Inl e \<Rightarrow> Some e
                       | Inr cm \<Rightarrow>
                           (case CheckAndReload (pkg lbc) (ReadConfig (pkg lbc) ingConfig cm) of
                              Inl e \<Rightarrow> Some e
                            | Inr reloaded \<Rightarrow> None))))
      in (err, retryOrForget lbc key retry))"

text \<open>One round of the loop of \<open>worker\<close>: \<open>Get\<close>, \<open>sync\<close>, then the deferred \<open>Done\<close>.\<close>

definition worker :: "LoadBalancerController \<Rightarrow> LoadBalancerController" where
  "worker lbc =
     (case wq_Get (syncQueue lbc) of
        None \<Rightarrow> lbc
      | Some (key, q) \<Rightarrow>
          (let lbc' = snd (sync (lbc\<lparr>syncQueue := q\<rparr>) key)
           in lbc'\<lparr>syncQueue := wq_Done key (syncQueue lbc')\<rparr>))"

section \<open>The status reconciler on shutdown\<close>

text \<open>\<open>lbc.podLister.Pods(ns).Get(name)\<close>.\<close>

definition getThisPod :: "LoadBalancerController \<Rightarrow> error + Pod" where
  "getThisPod lbc =
     (case podLister lbc of
        Inl e \<Rightarrow> Inl e
      | Inr pods \<Rightarrow>
          (case find (\<lambda>p. pod_Namespace p = PodNamespace (podInfo lbc)
                          \<and> pod_Name p = PodName (podInfo lbc)) pods of
             None \<Rightarrow> Inl PodNotFound
           | Some pod \<Rightarrow> Inr pod))"

text \<open>The loop of \<open>getPodAddress\<close> over \<open>node.Status.Addresses\<close>, with \<open>externalIP\<close> so far.\<close>

primrec podAddressLoop :: "bool \<Rightarrow> string \<Rightarrow> NodeAddress list \<Rightarrow> string" where
  "podAddressLoop allow externalIP [] = externalIP"
| "podAddressLoop allow externalIP (address # rest) =
     (if na_Type address = NodeExternalIP then
        (if na_Address address = [] then podAddressLoop allow externalIP rest
         else na_Address address)
      else if externalIP = [] \<and> ((allow \<and> na_Type address = NodeInternalIP)
                                   \<or> na_Type address = NodeLegacyHostIP)
      then podAddressLoop allow (na_Address address) rest
      else podAddressLoop allow externalIP rest)"

definition getPodAddress :: "LoadBalancerController \<Rightarrow> Pod \<Rightarrow> error + string" where
  "getPodAddress lbc pod =
     (case nodeLister lbc (pod_NodeName pod) of
        LookupErr \<Rightarrow> Inl NodeLookupError
      | NotExists \<Rightarrow> Inl NodeDeleted
      | Exists node \<Rightarrow>
          (let externalIP = podAddressLoop (allowInternalIP lbc) [] (node_Addresses node)
           in if externalIP = [] then Inl NoExternalIP else Inr externalIP))"

text \<open>
  Modelled from the spec: the helper \<open>removeAddressFromLoadBalancerIngress(lbIngs, addr)\<close> is
  not part of the controller source. It removes exactly the entries of the given address
  from a status list (``remove exactly that one address ... other replicas' addresses are
  unonlyAddressRemoved''); an entry carries its address as \<open>IP\<close> or as \<open>Hostname\<close>.
\<close>

definition removeAddressFromLBIngs ::
  "LoadBalancerIngress list \<Rightarrow> string \<Rightarrow> LoadBalancerIngress list" where
  "removeAddressFromLBIngs lbIngs addr =
     filter (\<lambda>lbIng. \<not> (lb_IP lbIng = addr \<or> lb_Hostname lbIng = addr)) lbIngs"

text \<open>
  The API server as the shutdown pass sees it: the stored rules resources by namespace and
  name, and the outcome of the calls to come (\<open>True\<close>: the call fails with a transient error; no entry:
  it succeeds).
\<close>

record apiServer =
  api_Ingresses :: "string \<times> string \<rightharpoonup> Ingress"
  api_faults :: "bool list"

definition nextFault :: "apiServer \<Rightarrow> bool \<times> apiServer" where
  "nextFault api =
     (case api_faults api of
        [] \<Rightarrow> (False, api)
      | f # fs \<Rightarrow> (f, api\<lparr>api_faults := fs\<rparr>))"

definition ingressKey :: "Ingress \<Rightarrow> string \<times> string" where
  "ingressKey ing = (ing_Namespace ing, ing_Name ing)"

definition apiGet :: "apiServer \<Rightarrow> string \<times> string \<Rightarrow> (error + Ingress) \<times> apiServer" where
  "apiGet api key =
     (let (fault, api') = nextFault api
      in if fault then (Inl ApiError, api')
         else (case api_Ingresses api' key of
                 None \<Rightarrow> (Inl IngressNotFound, api')
               | Some ing \<Rightarrow> (Inr ing, api')))"

definition apiUpdateStatus :: "apiServer \<Rightarrow> Ingress \<Rightarrow> (error + Ingress) \<times> apiServer" where
  "apiUpdateStatus api ing =
     (let (fault, api') = nextFault api
      in if fault then (Inl ApiError, api')
         else (case api_Ingresses api' (ingressKey ing) of
                 None \<Rightarrow> (Inl IngressNotFound, api')
               | Some stored \<Rightarrow>
                   (let new = stored\<lparr>ing_Status := ing_Status ing\<rparr>
                    in (Inr new,
                        api'\<lparr>api_Ingresses := (api_Ingresses api')(ingressKey ing \<mapsto> new)\<rparr>))))"

text \<open>
  The condition function handed to \<open>wait.Poll\<close>: \<open>(true, nil)\<close> is \<open>PollDone\<close>,
  \<open>(false, nil)\<close> is \<open>PollRetry\<close>, \<open>(false, err)\<close> is \<open>PollAbort err\<close>.
\<close>

datatype pollStep = PollDone | PollRetry | PollAbort error

definition removeAddressCond :: "string \<Rightarrow> Ingress \<Rightarrow> apiServer \<Rightarrow> pollStep \<times> apiServer" where
  "removeAddressCond addr cached api =
     (case apiGet api (ingressKey cached) of
        (Inl e, api1) \<Rightarrow> (if e = IngressNotFound then (PollAbort e, api1) else (PollRetry, api1))
      | (Inr ing, api1) \<Rightarrow>
          (let numOld = length (ing_Status ing)
           in if numOld = 0 then (PollDone, api1)
              else
                (let ing' = ing\<lparr>ing_Status := removeAddressFromLBIngs (ing_Status ing) addr\<rparr>
                 in if numOld = length (ing_Status ing') then (PollDone, api1)
                    else (case apiUpdateStatus api1 ing' of
                            (Inl e, api2) \<Rightarrow> (PollRetry, api2)
                          | (Inr updated, api2) \<Rightarrow> (PollDone, api2)))))"

text \<open>
  \<open>wait.Poll(250ms, 2s, condition)\<close>: the condition runs once per tick until it is done or
  fails; \<open>attempts\<close> is the number of ticks within the timeout.
\<close>

primrec Poll ::
  "nat \<Rightarrow> (apiServer \<Rightarrow> pollStep \<times> apiServer) \<Rightarrow> apiServer \<Rightarrow> error option \<times> apiServer" where
  "Poll 0 condition api = (Some ErrWaitTimeout, api)"
| "Poll (Suc attempts) condition api =
     (case condition api of
        (PollDone, api') \<Rightarrow> (None, api')
      | (PollAbort e, api') \<Rightarrow> (Some e, api')
      | (PollRetry, api') \<Rightarrow> Poll attempts condition api')"

primrec removeAddressLoop ::
  "LoadBalancerController \<Rightarrow> nat \<Rightarrow> string \<Rightarrow> Ingress list \<Rightarrow> apiServer \<Rightarrow> apiServer" where
  "removeAddressLoop lbc attempts addr [] api = api"
| "removeAddressLoop lbc attempts addr (ing # rest) api =
     (if \<not> validateIngressClass lbc ing then removeAddressLoop lbc attempts addr rest api
      else removeAddressLoop lbc attempts addr rest
             (snd (Poll attempts (removeAddressCond addr ing) api)))"

definition removeAddressFromLoadBalancerIngress ::
  "LoadBalancerController \<Rightarrow> nat \<Rightarrow> apiServer \<Rightarrow> error option \<times> apiServer" where
  "removeAddressFromLoadBalancerIngress lbc attempts api =
     (case getThisPod lbc of
        Inl e \<Rightarrow> (Some e, api)
      | Inr thisPod \<Rightarrow>
          (case getPodAddress lbc thisPod of
             Inl e \<Rightarrow> (Some e, api)
           | Inr addr \<Rightarrow>
               (case ingLister lbc of
                  Inl e \<Rightarrow> (Some e, api)
                | Inr ings \<Rightarrow> (None, removeAddressLoop lbc attempts addr ings api))))"

section \<open>Predicates of the properties\<close>

fun noAdjacentDuplicates :: "UpstreamServer list \<Rightarrow> bool" where
  "noAdjacentDuplicates [] = True"
| "noAdjacentDuplicates [b] = True"
| "noAdjacentDuplicates (b # c # rest) =
     (\<not> (us_Address b = us_Address c \<and> us_Port b = us_Port c) \<and> noAdjacentDuplicates (c # rest))"

definition hasDefaultHostPath :: "Upstream \<Rightarrow> bool" where
  "hasDefaultHostPath upstream = (Host upstream = [] \<and> Path upstream = ''/'')"

definition countDefaultHostPath :: "IngressConfig \<Rightarrow> nat" where
  "countDefaultHostPath m = length (filter hasDefaultHostPath (Upstreams m))"



definition tlsResolves :: "LoadBalancerController \<Rightarrow> Ingress \<Rightarrow> bool" where
  "tlsResolves lbc ing = (case getTLSCredFromIngress lbc ing of Inl e \<Rightarrow> False | Inr pems \<Rightarrow> True)"

definition referencesSecret :: "Ingress \<Rightarrow> string \<Rightarrow> bool" where
  "referencesSecret ing secretKey =
     list_ex (\<lambda>secretName. ing_Namespace ing @ ''/'' @ secretName = secretKey) (ing_TLS ing)"

text \<open>A secret that is stored and from which a credential can be created.\<close>

definition secretUsable :: "LoadBalancerController \<Rightarrow> string \<Rightarrow> bool" where
  "secretUsable lbc secretKey =
     (case secretLister lbc secretKey of
        Exists secret \<Rightarrow>
          (case createTLSCredFromSecret lbc secret of Inl e \<Rightarrow> False | Inr tlsCred \<Rightarrow> True)
      | _ \<Rightarrow> False)"

definition secretKeys :: "Ingress \<Rightarrow> string list" where
  "secretKeys ing = map (\<lambda>secretName. ing_Namespace ing @ ''/'' @ secretName) (ing_TLS ing)"

definition defaultSecretResolves :: "LoadBalancerController \<Rightarrow> bool" where
  "defaultSecretResolves lbc =
     (defaultTLSSecret lbc = [] \<or>
      (case getTLSCredFromSecret lbc (defaultTLSSecret lbc) of Inl e \<Rightarrow> False | Inr c \<Rightarrow> True))"

definition defaultServiceHasPort :: "LoadBalancerController \<Rightarrow> bool" where
  "defaultServiceHasPort lbc =
     (case svcLister lbc (defaultSvc lbc) of Exists svc \<Rightarrow> svc_Ports svc \<noteq> [] | _ \<Rightarrow> True)"

text \<open>The inputs that the config resolver reads from the controller.\<close>

definition sameBackendInputs :: "LoadBalancerController \<Rightarrow> LoadBalancerController \<Rightarrow> bool" where
  "sameBackendInputs lbc1 lbc2 =
     (pkg lbc1 = pkg lbc2 \<and> svcLister lbc1 = svcLister lbc2 \<and> epLister lbc1 = epLister lbc2
      \<and> podLister lbc1 = podLister lbc2 \<and> defaultSvc lbc1 = defaultSvc lbc2
      \<and> defaultTLSSecret lbc1 = defaultTLSSecret lbc2 \<and> ingressClass lbc1 = ingressClass lbc2)"


definition inScope :: "LoadBalancerController \<Rightarrow> Ingress list \<Rightarrow> string \<times> string \<Rightarrow> bool" where
  "inScope lbc ings key = list_ex (\<lambda>ing. validateIngressClass lbc ing \<and> ingressKey ing = key) ings"

definition withoutAddress :: "string \<Rightarrow> Ingress \<Rightarrow> Ingress" where
  "withoutAddress addr ing = ing\<lparr>ing_Status := removeAddressFromLBIngs (ing_Status ing) addr\<rparr>"

text \<open>Every stored object is stored under its own namespace and name.\<close>

definition wellKeyed :: "apiServer \<Rightarrow> bool" where
  "wellKeyed api = (\<forall>key ing. api_Ingresses api key = Some ing \<longrightarrow> ingressKey ing = key)"

text \<open>
  What the shutdown pass may do to the store: every stored resource is either as it was, or
  as it was with the entries of the address removed from its status; nothing is added or
  deleted.
\<close>

definition onlyAddressRemoved :: "string \<Rightarrow> apiServer \<Rightarrow> apiServer \<Rightarrow> bool" where
  "onlyAddressRemoved addr api api' =
     (\<forall>key. case api_Ingresses api key of
              None \<Rightarrow> api_Ingresses api' key = None
            | Some old \<Rightarrow> api_Ingresses api' key = Some old
                          \<or> api_Ingresses api' key = Some (withoutAddress addr old))"

text \<open>
  The store after a run of the condition function that settles the resource of the key: the
  address is gone from its status, and no fault is pending.
\<close>

definition settled :: "string \<Rightarrow> string \<times> string \<Rightarrow> apiServer \<Rightarrow> apiServer \<Rightarrow> bool" where
  "settled addr key api api' =
     (api_faults api' = [] \<and>
      api_Ingresses api' =
        (case api_Ingresses api key of
           None \<Rightarrow> api_Ingresses api
         | Some old \<Rightarrow> (api_Ingresses api)(key \<mapsto> withoutAddress addr old)))"

section \<open>Example data\<close>

definition ex_pkg :: nghttpx_pkg where
  "ex_pkg =
     \<lparr>NewDefaultServer =
        \<lparr>us_Address = ''127.0.0.1'', us_Port = ''8181'', us_Protocol = ''http/1.1'',
         us_TLS = False, us_SNI = [], us_DNS = False, us_Affinity = []\<rparr>,
      DefaultPortBackendConfig =
        \<lparr>pbc_Proto = ''http/1.1'', pbc_TLS = False, pbc_SNI = [], pbc_DNS = False,
         pbc_Affinity = []\<rparr>,
      FixupPortBackendConfig = (\<lambda>c svcKey bp. c),
      CommonNames = (\<lambda>cert. if cert = ''truncated'' then None else Some [cert]),
      CheckPrivateKey = (\<lambda>key. key \<noteq> []),
      CreateTLSCred =
        (\<lambda>prefix cert key.
           Some \<lparr>Key = \<lparr>cf_Path = prefix @ ''.key'', cf_Content = key, cf_Checksum = key\<rparr>,
                 Cert = \<lparr>cf_Path = prefix @ ''.crt'', cf_Content = cert, cf_Checksum = cert\<rparr>\<rparr>),
      TLSCredPrefix = (\<lambda>secret. sec_Namespace secret @ ''_'' @ sec_Name secret),
      getBackendConfig = (\<lambda>annotations. Map.empty),
      ReadConfig = (\<lambda>ingConfig cm. ingConfig),
      CheckAndReload = (\<lambda>ingConfig. Inr True)\<rparr>"

definition ex_servicePort :: ServicePort where
  "ex_servicePort =
     \<lparr>sp_Name = ''web'', sp_Protocol = ProtocolTCP, sp_Port = 80, sp_TargetPort = StrVal ''http''\<rparr>"

definition ex_svc :: Service where
  "ex_svc = \<lparr>svc_Namespace = ''ns'', svc_Name = ''a'', svc_Selector = [(''app'', ''a'')],
             svc_Ports = [ex_servicePort]\<rparr>"

definition ex_endpoints :: Endpoints where
  "ex_endpoints =
     \<lparr>ep_Namespace = ''ns'', ep_Name = ''a'',
      ep_Subsets = [\<lparr>ss_Addresses = [''10.0.0.2'', ''10.0.0.1'', ''10.0.0.2''],
                     ss_Ports = [\<lparr>epp_Port = 8080, epp_Protocol = ProtocolTCP\<rparr>]\<rparr>]\<rparr>"

definition ex_containerPort :: ContainerPort where
  "ex_containerPort = \<lparr>cp_Name = ''http'', cp_ContainerPort = 8080, cp_Protocol = ProtocolTCP\<rparr>"

definition ex_pod :: Pod where
  "ex_pod = \<lparr>pod_Namespace = ''ns'', pod_Name = ''a-1'', pod_Labels = [(''app'', ''a'')],
             pod_NodeName = ''node1'', pod_Containers = [[ex_containerPort]]\<rparr>"

definition ex_thisPod :: Pod where
  "ex_thisPod = \<lparr>pod_Namespace = ''kube-system'', pod_Name = ''ctl-1'', pod_Labels = [(''app'', ''ctl'')],
                 pod_NodeName = ''node1'', pod_Containers = []\<rparr>"

definition ex_node :: Node where
  "ex_node = \<lparr>node_Name = ''node1'',
              node_Addresses = [\<lparr>na_Type = NodeInternalIP, na_Address = ''10.1.0.1''\<rparr>,
                                \<lparr>na_Type = NodeExternalIP, na_Address = ''192.0.2.1''\<rparr>]\<rparr>"

definition ex_status :: "LoadBalancerIngress list" where
  "ex_status = [\<lparr>lb_IP = ''192.0.2.1'', lb_Hostname = []\<rparr>,
                \<lparr>lb_IP = ''192.0.2.2'', lb_Hostname = []\<rparr>,
                \<lparr>lb_IP = [], lb_Hostname = ''lb3.example.com''\<rparr>]"

definition ex_pathRoot :: HTTPIngressPath where
  "ex_pathRoot = \<lparr>path_Path = ''/'', path_ServiceName = ''a'', path_ServicePort = IntVal 80\<rparr>"

definition ex_rule :: IngressRule where
  "ex_rule = \<lparr>rule_Host = [],
              rule_HTTP = Some [ex_pathRoot,
                                \<lparr>path_Path = ''/api'', path_ServiceName = ''a'',
                                 path_ServicePort = StrVal ''web''\<rparr>]\<rparr>"

definition ex_ing1 :: Ingress where
  "ex_ing1 = \<lparr>ing_Namespace = ''ns'', ing_Name = ''i1'', ing_Annotations = [], ing_TLS = [],
              ing_Rules = [ex_rule], ing_Status = ex_status\<rparr>"

definition ex_ing2 :: Ingress where
  "ex_ing2 = \<lparr>ing_Namespace = ''ns'', ing_Name = ''i2'', ing_Annotations = [], ing_TLS = [],
              ing_Rules = [\<lparr>rule_Host = [],
                             rule_HTTP = Some [\<lparr>path_Path = [], path_ServiceName = ''a'',
                                               path_ServicePort = StrVal ''web''\<rparr>]\<rparr>],
              ing_Status = []\<rparr>"

definition ex_ingOther :: Ingress where
  "ex_ingOther = \<lparr>ing_Namespace = ''ns'', ing_Name = ''other'',
                  ing_Annotations = [(''kubernetes.io/ingress.class'', ''nginx'')], ing_TLS = [],
                  ing_Rules = [], ing_Status = ex_status\<rparr>"

definition ex_ingTLS :: Ingress where
  "ex_ingTLS = \<lparr>ing_Namespace = ''ns'', ing_Name = ''tls'', ing_Annotations = [],
                ing_TLS = [''good2'', ''good'', ''good2''],
                ing_Rules = [\<lparr>rule_Host = ''tls.example.com'',
                               rule_HTTP = Some [\<lparr>path_Path = ''/'', path_ServiceName = ''a'',
                                                 path_ServicePort = IntVal 80\<rparr>]\<rparr>],
                ing_Status = []\<rparr>"

definition ex_ingBad :: Ingress where
  "ex_ingBad = \<lparr>ing_Namespace = ''ns'', ing_Name = ''bad'', ing_Annotations = [],
                ing_TLS = [''bad''],
                ing_Rules = [\<lparr>rule_Host = ''bad.example.com'',
                               rule_HTTP = Some [\<lparr>path_Path = ''/'', path_ServiceName = ''a'',
                                                 path_ServicePort = IntVal 80\<rparr>]\<rparr>],
                ing_Status = []\<rparr>"

definition ex_secret :: "string \<Rightarrow> string \<Rightarrow> Secret" where
  "ex_secret name cert =
     \<lparr>sec_Namespace = ''ns'', sec_Name = name,
      sec_Data = [(''tls.crt'', cert), (''tls.key'', ''KEY'')]\<rparr>"

definition ex_emptyQueue :: workqueue where
  "ex_emptyQueue = \<lparr>wq_queue = [], wq_dirty = [], wq_processing = [], wq_shuttingDown = False\<rparr>"

definition ex_lbc :: LoadBalancerController where
  "ex_lbc =
     \<lparr>pkg = ex_pkg,
      ingLister = Inr [ex_ing1, ex_ingOther],
      svcLister = (\<lambda>key. if key = ''ns/a'' then Exists ex_svc else NotExists),
      epLister = [ex_endpoints],
      secretLister =
        (\<lambda>key. if key = ''ns/good'' then Exists (ex_secret ''good'' ''CERT'')
                else if key = ''ns/good2'' then Exists (ex_secret ''good2'' ''CERT'')
                else if key = ''ns/bad'' then Exists (ex_secret ''bad'' ''truncated'')
                else NotExists),
      cmLister = (\<lambda>key. NotExists),
      podLister = Inr [ex_pod, ex_thisPod],
      nodeLister = (\<lambda>key. if key = ''node1'' then Exists ex_node else NotExists),
      podInfo = \<lparr>PodName = ''ctl-1'', PodNamespace = ''kube-system''\<rparr>,
      defaultSvc = ''kube-system/default-http-backend'',
      ngxConfigMap = [],
      defaultTLSSecret = [],
      ingressClass = ''nghttpx'',
      allowInternalIP = False,
      syncQueue = ex_emptyQueue\<rparr>"

definition ex_server :: "string \<Rightarrow> UpstreamServer" where
  "ex_server ip =
     \<lparr>us_Address = ip, us_Port = ''8080'', us_Protocol = ''http/1.1'', us_TLS = False,
      us_SNI = [], us_DNS = False, us_Affinity = []\<rparr>"

definition ex_upstream :: "string \<Rightarrow> string \<Rightarrow> string \<Rightarrow> bool \<Rightarrow> Upstream" where
  "ex_upstream name host path redirect =
     \<lparr>Name = name, Host = host, Path = path, RedirectIfNotTLS = redirect,
      Backends = [ex_server ''10.0.0.1'', ex_server ''10.0.0.2'']\<rparr>"

definition ex_defaultUpstream :: Upstream where
  "ex_defaultUpstream =
     \<lparr>Name = ''kube-system/default-http-backend'', Host = [], Path = [],
      RedirectIfNotTLS = False, Backends = [NewDefaultServer ex_pkg]\<rparr>"

definition ex_cred :: "string \<Rightarrow> TLSCred" where
  "ex_cred name =
     \<lparr>Key = \<lparr>cf_Path = ''ns_'' @ name @ ''.key'', cf_Content = ''KEY'', cf_Checksum = ''KEY''\<rparr>,
      Cert = \<lparr>cf_Path = ''ns_'' @ name @ ''.crt'', cf_Content = ''CERT'', cf_Checksum = ''CERT''\<rparr>\<rparr>"

definition ex_model1 :: IngressConfig where
  "ex_model1 =
     \<lparr>TLS = False, DefaultTLSCred = None, SubTLSCred = [],
      Upstreams = [ex_upstream ''ns/a,80;/'' [] ''/'' False,
                   ex_upstream ''ns/a,web;/api'' [] ''/api'' False]\<rparr>"

definition ex_model2 :: IngressConfig where
  "ex_model2 =
     \<lparr>TLS = False, DefaultTLSCred = None, SubTLSCred = [],
      Upstreams = [ex_upstream ''ns/a,80;/'' [] ''/'' False,
                   ex_upstream ''ns/a,web;/'' [] ''/'' False,
                   ex_upstream ''ns/a,web;/api'' [] ''/api'' False]\<rparr>"

definition ex_modelEmpty :: IngressConfig where
  "ex_modelEmpty =
     \<lparr>TLS = False, DefaultTLSCred = None, SubTLSCred = [], Upstreams = [ex_defaultUpstream]\<rparr>"

definition ex_modelTLS :: IngressConfig where
  "ex_modelTLS =
     \<lparr>TLS = True, DefaultTLSCred = Some (ex_cred ''good''), SubTLSCred = [ex_cred ''good2''],
      Upstreams = [ex_defaultUpstream,
                   ex_upstream ''ns/a,80;tls.example.com/'' ''tls.example.com'' ''/'' True]\<rparr>"

definition ex_lbcBadDefault :: LoadBalancerController where
  "ex_lbcBadDefault = ex_lbc\<lparr>defaultTLSSecret := ''ns/bad''\<rparr>"

definition ex_lbcMissingDefault :: LoadBalancerController where
  "ex_lbcMissingDefault = ex_lbc\<lparr>defaultTLSSecret := ''ns/missing''\<rparr>"


definition ex_lbcRepaired :: LoadBalancerController where
  "ex_lbcRepaired =
     ex_lbc\<lparr>secretLister := (secretLister ex_lbc)(''ns/bad'' := Exists (ex_secret ''bad'' ''CERT''))\<rparr>"

definition ex_api :: apiServer where
  "ex_api =
     \<lparr>api_Ingresses =
        (\<lambda>key. if key = (''ns'', ''i1'') then Some ex_ing1
                else if key = (''ns'', ''other'') then Some ex_ingOther
                else None),
      api_faults = []\<rparr>"

definition ex_statusAfter :: "LoadBalancerIngress list" where
  "ex_statusAfter = [\<lparr>lb_IP = ''192.0.2.2'', lb_Hostname = []\<rparr>,
                     \<lparr>lb_IP = [], lb_Hostname = ''lb3.example.com''\<rparr>]"



definition ex_configMap :: ConfigMap where
  "ex_configMap = \<lparr>cm_Namespace = ''kube-system'', cm_Name = ''nghttpx'', cm_Data = []\<rparr>"

section \<open>Facts about sorting and deduplication of the upstreams\<close>

lemma backendKey_eq: "(backendKey a = backendKey b) = (us_Address a = us_Address b \<and> us_Port a = us_Port b)"
  by (simp add: backendKey_def)

lemma uniqBackendsLoop_nonempty: "uniq \<noteq> [] \<Longrightarrow> uniqBackendsLoop uniq rest \<noteq> []"
  by (induction rest arbitrary: uniq) (auto simp: Let_def)

lemma strict_sorted_le_last:
  fixes xs :: "('a::linorder) list"
  shows "sorted xs \<Longrightarrow> x \<in> set xs \<Longrightarrow> x \<le> last xs"
  by (induction xs) (auto)

lemma uniqBackendsLoop_strict:
  "uniq \<noteq> [] \<Longrightarrow> sorted_wrt (<) (map backendKey uniq) \<Longrightarrow> sorted (map backendKey rest) \<Longrightarrow>
   (\<forall>x\<in>set rest. backendKey (last uniq) \<le> backendKey x) \<Longrightarrow>
   sorted_wrt (<) (map backendKey (uniqBackendsLoop uniq rest))"
proof (induction rest arbitrary: uniq)
  case Nil
  then show ?case by simp
next
  case (Cons sv rest)
  show ?case
  proof (cases "backendKey (last uniq) = backendKey sv")
    case True
    then have "uniqBackendsLoop uniq (sv # rest) = uniqBackendsLoop uniq rest"
      by (simp add: backendKey_eq Let_def)
    moreover have "sorted_wrt (<) (map backendKey (uniqBackendsLoop uniq rest))"
      using Cons.prems by (intro Cons.IH) auto
    ultimately show ?thesis by simp
  next
    case False
    then have step: "uniqBackendsLoop uniq (sv # rest) = uniqBackendsLoop (uniq @ [sv]) rest"
      by (auto simp: backendKey_eq Let_def)
    have lt: "backendKey (last uniq) < backendKey sv"
      using False Cons.prems(4) by (simp add: order_less_le)
    have "sorted (map backendKey uniq)"
      using Cons.prems(2) by (simp add: strict_sorted_imp_sorted)
    then have "\<forall>k\<in>set (map backendKey uniq). k \<le> backendKey (last uniq)"
      using strict_sorted_le_last[of "map backendKey uniq"] Cons.prems(1)
      by (simp add: last_map)
    then have all_lt: "\<forall>k\<in>set (map backendKey uniq). k < backendKey sv"
      using lt by (meson order_le_less_trans)
    have "sorted_wrt (<) (map backendKey (uniq @ [sv]))"
      using Cons.prems(2) all_lt by (simp add: sorted_wrt_append)
    moreover have "sorted (map backendKey rest)"
      using Cons.prems(3) by simp
    moreover have "\<forall>x\<in>set rest. backendKey (last (uniq @ [sv])) \<le> backendKey x"
      using Cons.prems(3) by simp
    ultimately have "sorted_wrt (<) (map backendKey (uniqBackendsLoop (uniq @ [sv]) rest))"
      by (intro Cons.IH) auto
    with step show ?thesis by simp
  qed
qed

lemma strict_noAdjacent:
  "sorted_wrt (<) (map backendKey bs) \<Longrightarrow> noAdjacentDuplicates bs"
  by (induction bs rule: noAdjacentDuplicates.induct) (auto simp: backendKey_def)

lemma sortUniqBackends_Inr:
  assumes "sortUniqBackends x = Inr y"
  shows "Name y = Name x" and "Host y = Host x" and "Path y = Path x"
    and "RedirectIfNotTLS y = RedirectIfNotTLS x"
    and "Backends y \<noteq> []"
    and "sorted_wrt (<) (map backendKey (Backends y))"
proof -
  obtain b0 rest where s: "sort_key backendKey (Backends x) = b0 # rest"
    and y: "y = x\<lparr>Backends := uniqBackendsLoop [b0] rest\<rparr>"
    using assms by (auto simp: sortUniqBackends_def split: list.splits)
  show "Name y = Name x" "Host y = Host x" "Path y = Path x" "RedirectIfNotTLS y = RedirectIfNotTLS x"
    using y by simp_all
  show "Backends y \<noteq> []" using y by (simp add: uniqBackendsLoop_nonempty)
  have "sorted (map backendKey (b0 # rest))"
    using sorted_sort_key[of backendKey "Backends x"] s by simp
  then have "sorted_wrt (<) (map backendKey (uniqBackendsLoop [b0] rest))"
    by (intro uniqBackendsLoop_strict) auto
  then show "sorted_wrt (<) (map backendKey (Backends y))" using y by simp
qed

lemma backendsLoop_Inr:
  "backendsLoop xs = Inr ys \<Longrightarrow> list_all2 (\<lambda>x y. sortUniqBackends x = Inr y) xs ys"
  by (induction xs arbitrary: ys) (auto split: sum.splits)

lemma backendsLoop_names:
  "backendsLoop xs = Inr ys \<Longrightarrow> map Name ys = map Name xs"
  by (induction xs arbitrary: ys) (auto split: sum.splits dest: sortUniqBackends_Inr(1))

lemma backendsLoop_member:
  "backendsLoop xs = Inr ys \<Longrightarrow> y \<in> set ys \<Longrightarrow> \<exists>x\<in>set xs. sortUniqBackends x = Inr y"
  by (induction xs arbitrary: ys) (auto split: sum.splits)

text \<open>
  An emitted model carries the sorted and deduplicated form of the upstreams of the rules,
  with the synthesized default upstream appended first when the rules gave none.
\<close>

lemma getUpstreamServers_Inr:
  assumes "getUpstreamServers lbc ings = Inr m"
  shows "\<exists>ups. backendsLoop (sort_key Name ups) = Inr (Upstreams m) \<and>
           (if list_ex isDefaultUpstream (snd (ingressLoop lbc ings))
            then ups = snd (ingressLoop lbc ings)
            else (\<exists>d. getDefaultUpstream lbc = Inr d \<and> ups = snd (ingressLoop lbc ings) @ [d]))"
  using assms unfolding getUpstreamServers_def Let_def
  by (auto split: sum.splits if_splits)

text \<open>
  The resolver on the example data.
\<close>

lemma ex_eval1: "getUpstreamServers ex_lbc [ex_ing1, ex_ingOther] = Inr ex_model1"
  by code_simp

lemma ex_eval2: "getUpstreamServers ex_lbc [ex_ing1, ex_ing2] = Inr ex_model2"
  by code_simp

lemma ex_evalEmpty: "getUpstreamServers ex_lbc [] = Inr ex_modelEmpty"
  by code_simp

lemma ex_evalTLS: "getUpstreamServers ex_lbc [ex_ingBad, ex_ingTLS] = Inr ex_modelTLS"
  by code_simp

section \<open>C5: sorted and deduplicated output\<close>

text \<open>
  Claim C5: in every model returned by \<open>getUpstreamServers\<close> the upstreams are sorted by
  \<open>Name\<close>, and the backends of each upstream are sorted by (address, port) with no two
  adjacent entries of equal address and port.
\<close>

theorem upstreams_sorted:
  assumes "getUpstreamServers lbc ings = Inr m"
  shows "sorted (map Name (Upstreams m)) \<and>
         (\<forall>u\<in>set (Upstreams m). sorted (map backendKey (Backends u)) \<and> noAdjacentDuplicates (Backends u))"
proof -
  obtain ups where b: "backendsLoop (sort_key Name ups) = Inr (Upstreams m)"
    using getUpstreamServers_Inr[OF assms] by blast
  have "map Name (Upstreams m) = map Name (sort_key Name ups)"
    using backendsLoop_names[OF b] .
  then have 1: "sorted (map Name (Upstreams m))" by simp
  have 2: "sorted (map backendKey (Backends u)) \<and> noAdjacentDuplicates (Backends u)"
    if mem: "u \<in> set (Upstreams m)" for u
  proof -
    obtain x where "sortUniqBackends x = Inr u"
      using backendsLoop_member[OF b mem] by blast
    then have "sorted_wrt (<) (map backendKey (Backends u))"
      by (rule sortUniqBackends_Inr(6))
    then show ?thesis
      by (simp add: strict_sorted_imp_sorted strict_noAdjacent)
  qed
  from 1 2 show ?thesis by blast
qed

text \<open>
  An instance of C5: the model of one rules resource with two paths.
\<close>

theorem upstreams_sorted_witness:
  "getUpstreamServers ex_lbc [ex_ing1, ex_ingOther] = Inr ex_model1
   \<and> sorted (map Name (Upstreams ex_model1))
   \<and> list_all (\<lambda>u. sorted (map backendKey (Backends u)) \<and> noAdjacentDuplicates (Backends u))
        (Upstreams ex_model1)"
  using ex_eval1 upstreams_sorted[OF ex_eval1] by (simp add: list_all_iff)

section \<open>C6: no upstream without backends\<close>

lemma pathUpstream_Some_backends:
  "pathUpstream lbc ing requireTLS backendConfig rule path = Some u \<Longrightarrow> Backends u \<noteq> []"
  by (auto simp: pathUpstream_def Let_def split: if_splits lookup.splits)

lemma getDefaultUpstream_cases:
  assumes "getDefaultUpstream lbc = Inr d"
  shows "Name d = defaultSvc lbc \<and> Host d = [] \<and> Path d = [] \<and>
         RedirectIfNotTLS d = (defaultTLSSecret lbc \<noteq> []) \<and>
         (Backends d = [NewDefaultServer (pkg lbc)] \<or>
          (\<exists>svc port0 ports. svcLister lbc (defaultSvc lbc) = Exists svc \<and> svc_Ports svc = port0 # ports \<and>
             Backends d = getEndpoints lbc svc port0 ProtocolTCP (DefaultPortBackendConfig (pkg lbc)) \<and>
             Backends d \<noteq> []))"
  using assms
  by (auto simp: getDefaultUpstream_def Let_def split: lookup.splits list.splits if_splits)

lemma getDefaultUpstream_backends: "getDefaultUpstream lbc = Inr d \<Longrightarrow> Backends d \<noteq> []"
  using getDefaultUpstream_cases by fastforce

lemma getDefaultUpstream_isDefault: "getDefaultUpstream lbc = Inr d \<Longrightarrow> isDefaultUpstream d"
  using getDefaultUpstream_cases by (simp add: isDefaultUpstream_def)




section \<open>C1: the default upstream\<close>

lemma list_all2_filter_cong:
  "list_all2 R xs ys \<Longrightarrow> (\<And>x y. R x y \<Longrightarrow> P x = P y) \<Longrightarrow> list_all2 R (filter P xs) (filter P ys)"
  by (induction xs ys rule: list_all2_induct) auto

lemma sortUniqBackends_isDefault:
  "sortUniqBackends x = Inr y \<Longrightarrow> isDefaultUpstream x = isDefaultUpstream y"
  by (simp add: isDefaultUpstream_def sortUniqBackends_Inr(2,3))

lemma backendsLoop_filter_default:
  assumes "backendsLoop xs = Inr ys"
  shows "list_all2 (\<lambda>x y. sortUniqBackends x = Inr y) (filter isDefaultUpstream xs) (filter isDefaultUpstream ys)"
  using backendsLoop_Inr[OF assms] sortUniqBackends_isDefault
  by (rule list_all2_filter_cong)

text \<open>
  Claim C1, as the code has it: every emitted model has at least one upstream with the empty
  host and the path \<open>""\<close> or \<open>"/"\<close>. When the rules contributed none, exactly one such
  upstream is in the list, and it is the one synthesized by \<open>getDefaultUpstream\<close> (its path
  is empty), with its backends sorted and deduplicated. When the rules contributed some,
  nothing is synthesized and the list is the sorted, deduplicated list of the rules' upstreams,
  which may hold several of them.
\<close>

theorem default_upstream_present:
  assumes "getUpstreamServers lbc ings = Inr m"
  shows "list_ex isDefaultUpstream (Upstreams m)
         \<and> (\<not> list_ex isDefaultUpstream (snd (ingressLoop lbc ings)) \<longrightarrow>
              (\<exists>d d'. getDefaultUpstream lbc = Inr d \<and> sortUniqBackends d = Inr d' \<and>
                       filter isDefaultUpstream (Upstreams m) = [d']))
         \<and> (list_ex isDefaultUpstream (snd (ingressLoop lbc ings)) \<longrightarrow>
              backendsLoop (sort_key Name (snd (ingressLoop lbc ings))) = Inr (Upstreams m))"
proof -
  let ?rules = "snd (ingressLoop lbc ings)"
  obtain ups where b: "backendsLoop (sort_key Name ups) = Inr (Upstreams m)"
    and u: "if list_ex isDefaultUpstream ?rules then ups = ?rules
            else (\<exists>d. getDefaultUpstream lbc = Inr d \<and> ups = ?rules @ [d])"
    using getUpstreamServers_Inr[OF assms] by blast
  have rel: "list_all2 (\<lambda>x y. sortUniqBackends x = Inr y)
               (sort_key Name (filter isDefaultUpstream ups)) (filter isDefaultUpstream (Upstreams m))"
    using backendsLoop_filter_default[OF b] by (simp add: filter_sort)
  show ?thesis
  proof (cases "list_ex isDefaultUpstream ?rules")
    case True
    then have ups: "ups = ?rules" using u by simp
    have "filter isDefaultUpstream ups \<noteq> []"
      using True ups by (simp add: list_ex_iff filter_empty_conv)
    then have "sort_key Name (filter isDefaultUpstream ups) \<noteq> []"
      by (metis length_sort list.size(3) length_0_conv)
    then have "filter isDefaultUpstream (Upstreams m) \<noteq> []"
      using rel by auto
    then have "list_ex isDefaultUpstream (Upstreams m)"
      by (simp add: list_ex_iff filter_empty_conv)
    then show ?thesis using True b ups by simp
  next
    case False
    then obtain d where d: "getDefaultUpstream lbc = Inr d" and ups: "ups = ?rules @ [d]"
      using u by auto
    have "filter isDefaultUpstream ?rules = []"
      using False by (simp add: list_ex_iff filter_empty_conv)
    then have "filter isDefaultUpstream ups = [d]"
      using ups getDefaultUpstream_isDefault[OF d] by simp
    then have "list_all2 (\<lambda>x y. sortUniqBackends x = Inr y) [d] (filter isDefaultUpstream (Upstreams m))"
      using rel by simp
    then obtain d' where d': "sortUniqBackends d = Inr d'"
      and f: "filter isDefaultUpstream (Upstreams m) = [d']"
      by (auto simp: list_all2_Cons1)
    have "d' \<in> set (filter isDefaultUpstream (Upstreams m))" using f by simp
    then have "list_ex isDefaultUpstream (Upstreams m)"
      by (auto simp: list_ex_iff)
    then show ?thesis using False d d' f by blast
  qed
qed

text \<open>
  Two instances of C1: no rule at all, and two rules resources that declare the default path.
\<close>

theorem default_upstream_present_witness:
  "getUpstreamServers ex_lbc [] = Inr ex_modelEmpty
   \<and> \<not> list_ex isDefaultUpstream (snd (ingressLoop ex_lbc []))
   \<and> list_ex isDefaultUpstream (Upstreams ex_modelEmpty)
   \<and> (\<exists>d d'. getDefaultUpstream ex_lbc = Inr d \<and> sortUniqBackends d = Inr d' \<and>
               filter isDefaultUpstream (Upstreams ex_modelEmpty) = [d'])
   \<and> getUpstreamServers ex_lbc [ex_ing1, ex_ing2] = Inr ex_model2
   \<and> list_ex isDefaultUpstream (snd (ingressLoop ex_lbc [ex_ing1, ex_ing2]))
   \<and> list_ex isDefaultUpstream (Upstreams ex_model2)
   \<and> backendsLoop (sort_key Name (snd (ingressLoop ex_lbc [ex_ing1, ex_ing2]))) = Inr (Upstreams ex_model2)"
proof -
  have "list_ex isDefaultUpstream (snd (ingressLoop ex_lbc [ex_ing1, ex_ing2]))" by code_simp
  then show ?thesis
    using ex_evalEmpty default_upstream_present[OF ex_evalEmpty]
      ex_eval2 default_upstream_present[OF ex_eval2] by simp
qed

text \<open>
  Claim C1 as stated fails. Two rules resources that both declare the empty host and the path
  \<open>"/"\<close> give two upstreams with that host and path; and without any rule the only
  upstream is the synthesized one, whose path is the empty string, so none has the path
  \<open>"/"\<close>.
\<close>

theorem default_upstream_not_unique_counterexample:
  "getUpstreamServers ex_lbc [ex_ing1, ex_ing2] = Inr ex_model2
   \<and> countDefaultHostPath ex_model2 = 2
   \<and> getUpstreamServers ex_lbc [] = Inr ex_modelEmpty
   \<and> countDefaultHostPath ex_modelEmpty = 0"
proof -
  have "countDefaultHostPath ex_model2 = 2" by code_simp
  moreover have "countDefaultHostPath ex_modelEmpty = 0" by code_simp
  ultimately show ?thesis using ex_eval2 ex_evalEmpty by simp
qed

section \<open>C8: identities of the TLS credentials\<close>









section \<open>C4: determinism\<close>

lemma validateIngressClass_cong:
  "ingressClass lbc1 = ingressClass lbc2 \<Longrightarrow> validateIngressClass lbc1 ing = validateIngressClass lbc2 ing"
  by (simp add: validateIngressClass_def)

lemma listPods_cong:
  "podLister lbc1 = podLister lbc2 \<Longrightarrow> listPods lbc1 ns sel = listPods lbc2 ns sel"
  by (simp add: listPods_def)

lemma getNamedPortFromPod_cong:
  assumes "podLister lbc1 = podLister lbc2"
  shows "getNamedPortFromPod lbc1 svc servicePort = getNamedPortFromPod lbc2 svc servicePort"
  unfolding getNamedPortFromPod_def listPods_cong[OF assms] by (rule refl)

lemma epTargetPort_cong:
  assumes "podLister lbc1 = podLister lbc2"
  shows "epTargetPort lbc1 s servicePort proto epPort = epTargetPort lbc2 s servicePort proto epPort"
  unfolding epTargetPort_def getNamedPortFromPod_cong[OF assms] by (rule refl)

lemma subsetServers_cong:
  assumes "podLister lbc1 = podLister lbc2"
  shows "subsetServers lbc1 s servicePort proto cfg ss = subsetServers lbc2 s servicePort proto cfg ss"
  unfolding subsetServers_def epTargetPort_cong[OF assms] by (rule refl)

lemma getEndpoints_cong:
  assumes "sameBackendInputs lbc1 lbc2"
  shows "getEndpoints lbc1 s servicePort proto cfg = getEndpoints lbc2 s servicePort proto cfg"
proof -
  have p: "podLister lbc1 = podLister lbc2" and e: "epLister lbc1 = epLister lbc2"
    using assms by (simp_all add: sameBackendInputs_def)
  show ?thesis
    unfolding getEndpoints_def GetServiceEndpoints_def subsetServers_cong[OF p] e by (rule refl)
qed


lemma servicePortLoop_cong:
  assumes "sameBackendInputs lbc1 lbc2"
  shows "servicePortLoop lbc1 svc svcKey bp cfg ports = servicePortLoop lbc2 svc svcKey bp cfg ports"
proof -
  have f: "pkg lbc1 = pkg lbc2"
    using assms by (simp add: sameBackendInputs_def)
  show ?thesis
  proof (induction ports)
    case Nil
    show ?case by simp
  next
    case (Cons servicePort rest)
    show ?case
      unfolding servicePortLoop.simps Cons.IH getEndpoints_cong[OF assms] f by (rule refl)
  qed
qed

lemma pathUpstream_cong:
  assumes "sameBackendInputs lbc1 lbc2"
  shows "pathUpstream lbc1 ing requireTLS backendConfig rule path =
         pathUpstream lbc2 ing requireTLS backendConfig rule path"
proof -
  have f: "svcLister lbc1 = svcLister lbc2" "defaultTLSSecret lbc1 = defaultTLSSecret lbc2"
    using assms by (simp_all add: sameBackendInputs_def)
  show ?thesis
    unfolding pathUpstream_def servicePortLoop_cong[OF assms] f by (rule refl)
qed

lemma ruleUpstreams_cong:
  assumes "sameBackendInputs lbc1 lbc2"
  shows "ruleUpstreams lbc1 ing requireTLS backendConfig rule =
         ruleUpstreams lbc2 ing requireTLS backendConfig rule"
  unfolding ruleUpstreams_def pathUpstream_cong[OF assms] by (rule refl)

lemma createTLSCredFromSecret_cong:
  assumes "pkg lbc1 = pkg lbc2"
  shows "createTLSCredFromSecret lbc1 secret = createTLSCredFromSecret lbc2 secret"
  unfolding createTLSCredFromSecret_def assms by (rule refl)

lemma tlsCredLoop_cong:
  assumes "pkg lbc1 = pkg lbc2"
  shows "(\<forall>n\<in>set names. secretLister lbc1 (ns @ ''/'' @ n) = secretLister lbc2 (ns @ ''/'' @ n)) \<Longrightarrow>
         tlsCredLoop lbc1 ns names = tlsCredLoop lbc2 ns names"
proof (induction names)
  case Nil
  show ?case by simp
next
  case (Cons secretName rest)
  have e: "secretLister lbc1 (ns @ ''/'' @ secretName) = secretLister lbc2 (ns @ ''/'' @ secretName)"
    using Cons.prems by simp
  have r: "tlsCredLoop lbc1 ns rest = tlsCredLoop lbc2 ns rest"
    using Cons by simp
  show ?case
    unfolding tlsCredLoop.simps e r createTLSCredFromSecret_cong[OF assms] by (rule refl)
qed

lemma ingressContribution_cong:
  assumes "sameBackendInputs lbc1 lbc2"
    and "\<forall>n\<in>set (ing_TLS ing). secretLister lbc1 (ing_Namespace ing @ ''/'' @ n) = secretLister lbc2 (ing_Namespace ing @ ''/'' @ n)"
  shows "ingressContribution lbc1 ing = ingressContribution lbc2 ing"
proof -
  have p: "pkg lbc1 = pkg lbc2" and c: "ingressClass lbc1 = ingressClass lbc2"
    using assms(1) by (simp_all add: sameBackendInputs_def)
  have t: "getTLSCredFromIngress lbc1 ing = getTLSCredFromIngress lbc2 ing"
    using tlsCredLoop_cong[OF p assms(2)] by (simp add: getTLSCredFromIngress_def)
  have r: "ruleUpstreams lbc1 ing = ruleUpstreams lbc2 ing"
    using ruleUpstreams_cong[OF assms(1)] by (simp add: fun_eq_iff)
  show ?thesis
    unfolding ingressContribution_def t r p validateIngressClass_cong[OF c] by (rule refl)
qed




section \<open>C2: a secret that cannot be processed\<close>

lemma ingressLoop_filter_tls:
  "ingressLoop lbc (filter (tlsResolves lbc) ings) = ingressLoop lbc ings"
  by (induction ings) (auto simp: ingressContribution_def tlsResolves_def split: sum.splits)

lemma backendsLoop_total:
  "(\<forall>u\<in>set ups. Backends u \<noteq> []) \<Longrightarrow> \<exists>ys. backendsLoop ups = Inr ys"
proof (induction ups)
  case (Cons u ups)
  have "sort_key backendKey (Backends u) \<noteq> []"
    using Cons.prems by (metis length_sort length_0_conv list.set_intros(1))
  then obtain y where "sortUniqBackends u = Inr y"
    by (cases "sort_key backendKey (Backends u)") (simp_all add: sortUniqBackends_def)
  then show ?case using Cons by auto
qed simp

lemma ruleUpstreams_backends:
  "u \<in> set (ruleUpstreams lbc ing requireTLS backendConfig rule) \<Longrightarrow> Backends u \<noteq> []"
  by (auto simp: ruleUpstreams_def List.map_filter_def split: option.splits
        dest: pathUpstream_Some_backends)

lemma ingressContribution_backends:
  "u \<in> set (snd (ingressContribution lbc ing)) \<Longrightarrow> Backends u \<noteq> []"
  by (auto simp: ingressContribution_def Let_def split: if_splits sum.splits
        dest: ruleUpstreams_backends)

lemma ingressLoop_backends:
  "u \<in> set (snd (ingressLoop lbc ings)) \<Longrightarrow> Backends u \<noteq> []"
  by (induction ings) (auto dest: ingressContribution_backends)

lemma getDefaultUpstream_total:
  "defaultServiceHasPort lbc \<Longrightarrow> \<exists>d. getDefaultUpstream lbc = Inr d"
  by (auto simp: defaultServiceHasPort_def getDefaultUpstream_def Let_def
        split: lookup.splits list.splits)

lemma getUpstreamServers_total:
  assumes "defaultSecretResolves lbc" and "defaultServiceHasPort lbc"
  shows "\<exists>m. getUpstreamServers lbc ings = Inr m"
proof -
  obtain d where d: "getDefaultUpstream lbc = Inr d"
    using getDefaultUpstream_total[OF assms(2)] by blast
  let ?rules = "snd (ingressLoop lbc ings)"
  let ?ups = "if list_ex isDefaultUpstream ?rules then ?rules else ?rules @ [d]"
  have "\<forall>u\<in>set (sort_key Name ?ups). Backends u \<noteq> []"
    using ingressLoop_backends getDefaultUpstream_backends[OF d] by auto
  then obtain ys where ys: "backendsLoop (sort_key Name ?ups) = Inr ys"
    using backendsLoop_total by blast
  show ?thesis
  proof (cases "list_ex isDefaultUpstream ?rules")
    case True
    then show ?thesis
      using assms(1) ys unfolding getUpstreamServers_def Let_def defaultSecretResolves_def
      by (auto split: sum.splits)
  next
    case False
    then show ?thesis
      using assms(1) ys d unfolding getUpstreamServers_def Let_def defaultSecretResolves_def
      by (auto split: sum.splits)
  qed
qed

lemma tlsCredLoop_resolves:
  "(case tlsCredLoop lbc ns names of Inl e \<Rightarrow> False | Inr pems \<Rightarrow> True) =
   list_all (secretUsable lbc) (map (\<lambda>secretName. ns @ ''/'' @ secretName) names)"
proof (induction names)
  case Nil
  show ?case by simp
next
  case (Cons secretName rest)
  have u: "secretUsable lbc (ns @ ''/'' @ secretName) =
             (case secretLister lbc (ns @ ''/'' @ secretName) of
                Exists secret \<Rightarrow>
                  (case createTLSCredFromSecret lbc secret of Inl e \<Rightarrow> False | Inr tlsCred \<Rightarrow> True)
              | _ \<Rightarrow> False)"
    by (simp add: secretUsable_def)
  show ?case
    unfolding list.map list.pred_inject u Cons.IH[symmetric]
    by (auto split: lookup.splits sum.splits)
qed

lemma tlsResolves_iff: "tlsResolves lbc ing = list_all (secretUsable lbc) (secretKeys ing)"
  by (simp add: tlsResolves_def getTLSCredFromIngress_def secretKeys_def tlsCredLoop_resolves)

lemma referencesSecret_iff: "referencesSecret ing secretKey = (secretKey \<in> set (secretKeys ing))"
  by (auto simp: referencesSecret_def secretKeys_def list_ex_iff)

text \<open>
  Claim C2, as the code has it: when the default TLS secret is unset or can be resolved (and
  the default service, if it exists, declares a port), \<open>getUpstreamServers\<close> returns a
  model. The TLS section of a rules resource resolves exactly when every secret it names is
  stored and yields a credential; a rules resource that names a secret that is absent,
  malformed or invalid contributes nothing, and the result is the one obtained without such
  resources. What a rules resource contributes does not depend on a secret that it does not
  reference.
\<close>

theorem bad_secret_isolated:
  assumes "defaultSecretResolves lbc" and "defaultServiceHasPort lbc"
  shows "(\<exists>m. getUpstreamServers lbc ings = Inr m)
         \<and> getUpstreamServers lbc ings = getUpstreamServers lbc (filter (tlsResolves lbc) ings)
         \<and> tlsResolves lbc ing = list_all (secretUsable lbc) (secretKeys ing)
         \<and> (referencesSecret ing secretKey \<and> \<not> secretUsable lbc secretKey \<longrightarrow>
              ingressContribution lbc ing = ([], []))
         \<and> (\<not> referencesSecret ing secretKey \<longrightarrow>
              ingressContribution (lbc\<lparr>secretLister := (secretLister lbc)(secretKey := s)\<rparr>) ing =
              ingressContribution lbc ing)"
proof -
  have 2: "getUpstreamServers lbc ings = getUpstreamServers lbc (filter (tlsResolves lbc) ings)"
    unfolding getUpstreamServers_def ingressLoop_filter_tls by (rule refl)
  have 3: "ingressContribution lbc ing = ([], [])"
    if "referencesSecret ing secretKey" "\<not> secretUsable lbc secretKey"
  proof -
    have "\<not> tlsResolves lbc ing"
      using that by (auto simp: tlsResolves_iff referencesSecret_iff list_all_iff)
    then show ?thesis
      by (auto simp: ingressContribution_def tlsResolves_def split: sum.splits)
  qed
  have 4: "ingressContribution (lbc\<lparr>secretLister := (secretLister lbc)(secretKey := s)\<rparr>) ing =
           ingressContribution lbc ing" if "\<not> referencesSecret ing secretKey"
    using that
    by (intro ingressContribution_cong) (auto simp: sameBackendInputs_def referencesSecret_def list_ex_iff)
  show ?thesis
    using getUpstreamServers_total[OF assms] 2 3 4 tlsResolves_iff by blast
qed

text \<open>
  An instance of C2: one rules resource names a secret with a truncated certificate, another
  one does not.
\<close>

theorem bad_secret_isolated_witness:
  "defaultSecretResolves ex_lbc \<and> defaultServiceHasPort ex_lbc
   \<and> referencesSecret ex_ingBad ''ns/bad'' \<and> \<not> secretUsable ex_lbc ''ns/bad''
   \<and> \<not> referencesSecret ex_ingTLS ''ns/bad''
   \<and> getUpstreamServers ex_lbc [ex_ingBad, ex_ingTLS] = Inr ex_modelTLS
   \<and> getUpstreamServers ex_lbc [ex_ingBad, ex_ingTLS] =
       getUpstreamServers ex_lbc (filter (tlsResolves ex_lbc) [ex_ingBad, ex_ingTLS])
   \<and> filter (tlsResolves ex_lbc) [ex_ingBad, ex_ingTLS] = [ex_ingTLS]
   \<and> ingressContribution ex_lbc ex_ingBad = ([], [])
   \<and> ingressContribution ex_lbcRepaired ex_ingTLS = ingressContribution ex_lbc ex_ingTLS"
proof -
  have a: "defaultSecretResolves ex_lbc" by code_simp
  have b: "defaultServiceHasPort ex_lbc" by code_simp
  have c: "referencesSecret ex_ingBad ''ns/bad''" by code_simp
  have d: "\<not> secretUsable ex_lbc ''ns/bad''" by code_simp
  have e: "\<not> referencesSecret ex_ingTLS ''ns/bad''" by code_simp
  have f: "filter (tlsResolves ex_lbc) [ex_ingBad, ex_ingTLS] = [ex_ingTLS]" by code_simp
  show ?thesis
    using a b c d e f ex_evalTLS
      bad_secret_isolated[OF a b, of "[ex_ingBad, ex_ingTLS]" ex_ingBad "''ns/bad''"]
      bad_secret_isolated[OF a b, of "[ex_ingBad, ex_ingTLS]" ex_ingTLS "''ns/bad''"
        "Exists (ex_secret ''bad'' ''CERT'')"]
    by (simp add: ex_lbcRepaired_def)
qed

text \<open>
  Claim C2 as stated fails: when the secret with the truncated certificate is the configured
  default TLS secret, \<open>getUpstreamServers\<close> returns the error and no model.
\<close>

theorem bad_default_secret_counterexample:
  "getUpstreamServers ex_lbcBadDefault [ex_ing1] = Inl InvalidCertificate"
  by code_simp

section \<open>C7: resolution of the service port\<close>





section \<open>C10: updates that change nothing\<close>

text \<open>
  Claim C10: an update notification for endpoints, a secret, a config map or a pod whose old
  and new objects are equal leaves the controller, and so its queue, as it was.
\<close>

theorem noop_update_enqueues_nothing:
  "updateEndpointsNotification lbc ep ep = lbc
   \<and> updateSecretNotification lbc secret secret = lbc
   \<and> updateConfigMapNotification lbc cm cm = lbc
   \<and> updatePodNotification lbc pod pod = lbc"
  by (simp add: updateEndpointsNotification_def updateSecretNotification_def
        updateConfigMapNotification_def updatePodNotification_def)

text \<open>
  An instance of C10 on the example controller, whose queue stays empty.
\<close>

theorem noop_update_enqueues_nothing_witness:
  "updateEndpointsNotification ex_lbc ex_endpoints ex_endpoints = ex_lbc
   \<and> updateSecretNotification ex_lbc (ex_secret ''good'' ''CERT'') (ex_secret ''good'' ''CERT'') = ex_lbc
   \<and> updateConfigMapNotification ex_lbc ex_configMap ex_configMap = ex_lbc
   \<and> updatePodNotification ex_lbc ex_pod ex_pod = ex_lbc
   \<and> wq_queue (syncQueue (updateEndpointsNotification ex_lbc ex_endpoints ex_endpoints)) = []"
proof -
  have "wq_queue (syncQueue ex_lbc) = []" by code_simp
  then show ?thesis
    using noop_update_enqueues_nothing[of ex_lbc ex_endpoints "ex_secret ''good'' ''CERT''"
        ex_configMap ex_pod]
    by simp
qed

section \<open>C3: a failed sync\<close>

lemma sync_state_unchanged: "snd (sync lbc key) = lbc"
  by (simp add: sync_def retryOrForget_def)

text \<open>
  Claim C3 does not hold of the code: \<open>sync\<close> fails on a controller whose default TLS
  secret is missing, the deferred \<open>retryOrForget\<close> is called with \<open>false\<close> and adds
  nothing, and after the round of the worker the key is neither queued nor dirty.
\<close>

theorem sync_failure_not_requeued:
  "fst (sync ex_lbcMissingDefault syncKey) = Some SecretDeleted
   \<and> snd (sync ex_lbcMissingDefault syncKey) = ex_lbcMissingDefault
   \<and> wq_queue (syncQueue (enqueue ex_lbcMissingDefault syncKey)) = [syncKey]
   \<and> wq_queue (syncQueue (worker (enqueue ex_lbcMissingDefault syncKey))) = []
   \<and> wq_dirty (syncQueue (worker (enqueue ex_lbcMissingDefault syncKey))) = []"
proof -
  have 1: "fst (sync ex_lbcMissingDefault syncKey) = Some SecretDeleted" by code_simp
  have 2: "wq_queue (syncQueue (enqueue ex_lbcMissingDefault syncKey)) = [syncKey]" by code_simp
  have 3: "wq_queue (syncQueue (worker (enqueue ex_lbcMissingDefault syncKey))) = []" by code_simp
  have 4: "wq_dirty (syncQueue (worker (enqueue ex_lbcMissingDefault syncKey))) = []" by code_simp
  show ?thesis using 1 2 3 4 sync_state_unchanged by simp
qed

section \<open>C9: removal of the own address on shutdown\<close>

lemma removeAddress_idem:
  "removeAddressFromLBIngs (removeAddressFromLBIngs l addr) addr = removeAddressFromLBIngs l addr"
  by (simp add: removeAddressFromLBIngs_def)

lemma removeAddress_same_length:
  "length (removeAddressFromLBIngs l addr) = length l \<Longrightarrow> removeAddressFromLBIngs l addr = l"
  unfolding removeAddressFromLBIngs_def
  by (metis filter_True length_filter_less linorder_neq_iff filter_id_conv)

lemma withoutAddress_idem: "withoutAddress addr (withoutAddress addr ing) = withoutAddress addr ing"
  by (simp add: withoutAddress_def removeAddress_idem)

lemma withoutAddress_key: "ingressKey (withoutAddress addr ing) = ingressKey ing"
  by (simp add: withoutAddress_def ingressKey_def)

lemma wellKeyedD: "wellKeyed api \<Longrightarrow> api_Ingresses api key = Some ing \<Longrightarrow> ingressKey ing = key"
  unfolding wellKeyed_def by blast

lemma wellKeyed_upd:
  "wellKeyed api \<Longrightarrow> ingressKey new = key \<Longrightarrow> api_Ingresses api' = (api_Ingresses api)(key \<mapsto> new) \<Longrightarrow>
   wellKeyed api'"
  unfolding wellKeyed_def by (metis fun_upd_apply option.inject)

lemma wellKeyed_same: "wellKeyed api \<Longrightarrow> api_Ingresses api' = api_Ingresses api \<Longrightarrow> wellKeyed api'"
  unfolding wellKeyed_def by simp

lemma onlyAddressRemoved_refl: "onlyAddressRemoved addr api api"
  by (simp add: onlyAddressRemoved_def split: option.splits)

lemma onlyAddressRemoved_trans:
  assumes "onlyAddressRemoved addr a b" and "onlyAddressRemoved addr b c"
  shows "onlyAddressRemoved addr a c"
  unfolding onlyAddressRemoved_def
proof
  fix key
  show "case api_Ingresses a key of None \<Rightarrow> api_Ingresses c key = None
        | Some old \<Rightarrow> api_Ingresses c key = Some old \<or> api_Ingresses c key = Some (withoutAddress addr old)"
    using assms[unfolded onlyAddressRemoved_def, THEN spec, of key]
    by (auto split: option.splits simp: withoutAddress_idem)
qed

lemma withoutAddress_noop:
  "length (removeAddressFromLBIngs (ing_Status ing) addr) = length (ing_Status ing) \<Longrightarrow>
   withoutAddress addr ing = ing"
  by (simp add: withoutAddress_def removeAddress_same_length)

lemma withoutAddress_empty: "ing_Status ing = [] \<Longrightarrow> withoutAddress addr ing = ing"
  by (simp add: withoutAddress_def removeAddressFromLBIngs_def)

lemma ingressKey_status [simp]: "ingressKey (ing\<lparr>ing_Status := st\<rparr>) = ingressKey ing"
  by (simp add: ingressKey_def)

lemma apiGet_result:
  assumes "apiGet api key = (r, api1)"
  shows "api_Ingresses api1 = api_Ingresses api"
    and "r = Inr ing \<Longrightarrow> api_Ingresses api key = Some ing"
    and "api_faults api = [] \<Longrightarrow> api_faults api1 = [] \<and>
           r = (case api_Ingresses api key of None \<Rightarrow> Inl IngressNotFound | Some ing \<Rightarrow> Inr ing)"
  using assms
  by (auto simp: apiGet_def nextFault_def Let_def split: list.splits option.splits if_splits)

lemma apiUpdateStatus_result:
  assumes "apiUpdateStatus api ing = (r, api2)"
  shows "api_Ingresses api2 = api_Ingresses api \<or>
         (\<exists>stored. api_Ingresses api (ingressKey ing) = Some stored \<and>
            api_Ingresses api2 =
              (api_Ingresses api)(ingressKey ing \<mapsto> stored\<lparr>ing_Status := ing_Status ing\<rparr>))"
    and "api_faults api = [] \<Longrightarrow> api_Ingresses api (ingressKey ing) = Some stored \<Longrightarrow>
           api_faults api2 = [] \<and> (\<exists>new. r = Inr new) \<and>
           api_Ingresses api2 =
             (api_Ingresses api)(ingressKey ing \<mapsto> stored\<lparr>ing_Status := ing_Status ing\<rparr>)"
  using assms
  by (auto simp: apiUpdateStatus_def nextFault_def Let_def split: list.splits option.splits if_splits)

text \<open>
  The effect of one run of the condition function on the store.
\<close>

lemma removeAddressCond_store:
  assumes "wellKeyed api"
  shows "api_Ingresses (snd (removeAddressCond addr cached api)) = api_Ingresses api
         \<or> (\<exists>old. api_Ingresses api (ingressKey cached) = Some old \<and>
              api_Ingresses (snd (removeAddressCond addr cached api)) =
                (api_Ingresses api)(ingressKey cached \<mapsto> withoutAddress addr old))"
proof -
  obtain r1 api1 where g: "apiGet api (ingressKey cached) = (r1, api1)"
    by (cases "apiGet api (ingressKey cached)")
  have s1: "api_Ingresses api1 = api_Ingresses api" using apiGet_result(1)[OF g] .
  show ?thesis
  proof (cases r1)
    case (Inl e)
    then show ?thesis using g s1 by (simp add: removeAddressCond_def)
  next
    case (Inr ing)
    have st: "api_Ingresses api (ingressKey cached) = Some ing"
      using apiGet_result(2)[OF g Inr] .
    have k: "ingressKey ing = ingressKey cached" using wellKeyedD[OF assms st] .
    let ?ing' = "ing\<lparr>ing_Status := removeAddressFromLBIngs (ing_Status ing) addr\<rparr>"
    obtain r2 api2 where u: "apiUpdateStatus api1 ?ing' = (r2, api2)"
      by (cases "apiUpdateStatus api1 ?ing'")
    have "api_Ingresses api2 = api_Ingresses api \<or>
          api_Ingresses api2 = (api_Ingresses api)(ingressKey cached \<mapsto> withoutAddress addr ing)"
      using apiUpdateStatus_result(1)[OF u] st k by (auto simp: s1 withoutAddress_def)
    moreover have "snd (removeAddressCond addr cached api) = api1
                   \<or> snd (removeAddressCond addr cached api) = api2"
      using g Inr u by (auto simp: removeAddressCond_def Let_def split: sum.splits)
    ultimately show ?thesis using st s1 by auto
  qed
qed

lemma removeAddressCond_onlyAddressRemoved:
  assumes "wellKeyed api"
  shows "onlyAddressRemoved addr api (snd (removeAddressCond addr cached api))
         \<and> wellKeyed (snd (removeAddressCond addr cached api))"
proof -
  let ?api' = "snd (removeAddressCond addr cached api)"
  from removeAddressCond_store[OF assms, of addr cached] show ?thesis
  proof (elim disjE exE conjE)
    assume e: "api_Ingresses ?api' = api_Ingresses api"
    then show ?thesis
      using wellKeyed_same[OF assms e] by (simp add: onlyAddressRemoved_def split: option.splits)
  next
    fix old
    assume o: "api_Ingresses api (ingressKey cached) = Some old"
      and e: "api_Ingresses ?api' = (api_Ingresses api)(ingressKey cached \<mapsto> withoutAddress addr old)"
    have "ingressKey (withoutAddress addr old) = ingressKey cached"
      using wellKeyedD[OF assms o] by (simp add: withoutAddress_key)
    then have "wellKeyed ?api'" using wellKeyed_upd[OF assms _ e] by simp
    moreover have "onlyAddressRemoved addr api ?api'"
      using o e by (simp add: onlyAddressRemoved_def split: option.splits)
    ultimately show ?thesis by simp
  qed
qed

lemma Poll_onlyAddressRemoved:
  "wellKeyed api \<Longrightarrow>
   onlyAddressRemoved addr api (snd (Poll attempts (removeAddressCond addr cached) api))
   \<and> wellKeyed (snd (Poll attempts (removeAddressCond addr cached) api))"
proof (induction attempts arbitrary: api)
  case 0
  then show ?case by (simp add: onlyAddressRemoved_refl)
next
  case (Suc attempts)
  obtain r api' where c: "removeAddressCond addr cached api = (r, api')"
    by (cases "removeAddressCond addr cached api")
  have t: "onlyAddressRemoved addr api api'" and w: "wellKeyed api'"
    using removeAddressCond_onlyAddressRemoved[OF Suc.prems, of addr cached] c by simp_all
  show ?case
  proof (cases r)
    case PollRetry
    then show ?thesis
      using c t Suc.IH[OF w] by (auto intro: onlyAddressRemoved_trans)
  qed (use c t w in simp_all)
qed

lemma removeAddressLoop_onlyAddressRemoved:
  "wellKeyed api \<Longrightarrow>
   onlyAddressRemoved addr api (removeAddressLoop lbc attempts addr ings api)
   \<and> wellKeyed (removeAddressLoop lbc attempts addr ings api)"
proof (induction ings arbitrary: api)
  case Nil
  then show ?case by (simp add: onlyAddressRemoved_refl)
next
  case (Cons ing rest)
  show ?case
  proof (cases "validateIngressClass lbc ing")
    case False
    then show ?thesis using Cons by simp
  next
    case True
    let ?api1 = "snd (Poll attempts (removeAddressCond addr ing) api)"
    have 1: "onlyAddressRemoved addr api ?api1" and 2: "wellKeyed ?api1"
      using Poll_onlyAddressRemoved[OF Cons.prems] by simp_all
    show ?thesis
      using True Cons.IH[OF 2] 1 by (auto intro: onlyAddressRemoved_trans)
  qed
qed

text \<open>
  Without faults, one run of the condition function settles the resource.
\<close>

lemma removeAddressCond_nofault:
  assumes "wellKeyed api" and "api_faults api = []"
  shows "fst (removeAddressCond addr cached api) \<noteq> PollRetry
         \<and> settled addr (ingressKey cached) api (snd (removeAddressCond addr cached api))"
proof -
  obtain r1 api1 where g: "apiGet api (ingressKey cached) = (r1, api1)"
    by (cases "apiGet api (ingressKey cached)")
  have s1: "api_Ingresses api1 = api_Ingresses api" using apiGet_result(1)[OF g] .
  have f1: "api_faults api1 = []"
    and r1: "r1 = (case api_Ingresses api (ingressKey cached) of
                     None \<Rightarrow> Inl IngressNotFound | Some ing \<Rightarrow> Inr ing)"
    using apiGet_result(3)[OF g assms(2)] by simp_all
  show ?thesis
  proof (cases "api_Ingresses api (ingressKey cached)")
    case None
    then show ?thesis using g r1 f1 s1 by (simp add: removeAddressCond_def settled_def)
  next
    case (Some ing)
    have k: "ingressKey ing = ingressKey cached" using wellKeyedD[OF assms(1) Some] .
    have r1': "r1 = Inr ing" using r1 Some by simp
    let ?ing' = "ing\<lparr>ing_Status := removeAddressFromLBIngs (ing_Status ing) addr\<rparr>"
    have w: "withoutAddress addr ing = ?ing'" by (simp add: withoutAddress_def)
    have same: "(api_Ingresses api)(ingressKey cached \<mapsto> ing) = api_Ingresses api"
      using Some by (auto simp: fun_eq_iff)
    show ?thesis
    proof (cases "ing_Status ing = [] \<or>
                  length (ing_Status ing) = length (removeAddressFromLBIngs (ing_Status ing) addr)")
      case True
      then have "withoutAddress addr ing = ing"
        using withoutAddress_noop[of ing addr] withoutAddress_empty[of ing addr] by auto
      moreover have "removeAddressCond addr cached api = (PollDone, api1)"
        using g r1' True by (auto simp: removeAddressCond_def Let_def)
      ultimately show ?thesis using Some f1 s1 same by (simp add: settled_def)
    next
      case False
      obtain r2 api2 where u: "apiUpdateStatus api1 ?ing' = (r2, api2)"
        by (cases "apiUpdateStatus api1 ?ing'")
      have st1: "api_Ingresses api1 (ingressKey ?ing') = Some ing"
        using Some k s1 by simp
      have f2: "api_faults api2 = []" and ok: "\<exists>new. r2 = Inr new"
        and s2: "api_Ingresses api2 =
                 (api_Ingresses api1)(ingressKey ?ing' \<mapsto> ing\<lparr>ing_Status := ing_Status ?ing'\<rparr>)"
        using apiUpdateStatus_result(2)[OF u f1 st1] by simp_all
      have "removeAddressCond addr cached api = (PollDone, api2)"
        using g r1' False u ok by (auto simp: removeAddressCond_def Let_def)
      moreover have "api_Ingresses api2 = (api_Ingresses api)(ingressKey cached \<mapsto> withoutAddress addr ing)"
        using s2 s1 k by (simp add: withoutAddress_def)
      ultimately show ?thesis using Some f2 by (simp add: settled_def)
    qed
  qed
qed

lemma Poll_nofault:
  assumes "wellKeyed api" and "api_faults api = []"
  shows "settled addr (ingressKey cached) api (snd (Poll (Suc attempts) (removeAddressCond addr cached) api))"
proof -
  obtain r api' where c: "removeAddressCond addr cached api = (r, api')"
    by (cases "removeAddressCond addr cached api")
  have "r \<noteq> PollRetry" and "settled addr (ingressKey cached) api api'"
    using removeAddressCond_nofault[OF assms, of addr cached] c by simp_all
  then show ?thesis using c by (cases r) simp_all
qed

lemma removeAddressLoop_nofault:
  "wellKeyed api \<Longrightarrow> api_faults api = [] \<Longrightarrow> api_Ingresses api key = Some old \<Longrightarrow>
   api_Ingresses (removeAddressLoop lbc (Suc attempts) addr ings api) key =
     Some (if inScope lbc ings key then withoutAddress addr old else old)"
proof (induction ings arbitrary: api old)
  case Nil
  then show ?case by (simp add: inScope_def)
next
  case (Cons ing rest)
  show ?case
  proof (cases "validateIngressClass lbc ing")
    case False
    then show ?thesis using Cons by (simp add: inScope_def)
  next
    case True
    let ?api1 = "snd (Poll (Suc attempts) (removeAddressCond addr ing) api)"
    have s: "settled addr (ingressKey ing) api ?api1"
      using Poll_nofault[OF Cons.prems(1,2)] .
    have w: "wellKeyed ?api1"
      using Poll_onlyAddressRemoved[OF Cons.prems(1), of addr "Suc attempts" ing] by (rule conjunct2)
    have f: "api_faults ?api1 = []" using s by (simp add: settled_def)
    show ?thesis
    proof (cases "ingressKey ing = key")
      case same: True
      have "api_Ingresses ?api1 key = Some (withoutAddress addr old)"
        using s same Cons.prems(3) by (simp add: settled_def)
      then have "api_Ingresses (removeAddressLoop lbc (Suc attempts) addr rest ?api1) key =
                 Some (if inScope lbc rest key then withoutAddress addr (withoutAddress addr old)
                       else withoutAddress addr old)"
        by (rule Cons.IH[OF w f])
      then show ?thesis using True same by (simp add: inScope_def withoutAddress_idem)
    next
      case other: False
      have "api_Ingresses ?api1 key = Some old"
        using s other Cons.prems(3) by (auto simp: settled_def split: option.splits)
      then have "api_Ingresses (removeAddressLoop lbc (Suc attempts) addr rest ?api1) key =
                 Some (if inScope lbc rest key then withoutAddress addr old else old)"
        by (rule Cons.IH[OF w f])
      then show ?thesis using True other by (simp add: inScope_def)
    qed
  qed
qed

text \<open>
  Claim C9: on shutdown, whatever the faults, every stored rules resource is left as it was or
  loses exactly the entries of the own address of the replica. When no call fails and the poll
  runs at least once, every in-scope resource has lost them and every other resource is
  unchanged. The status without the address holds no entry of that address, and its entries
  of other addresses are those of the old status, in the same order.
\<close>

theorem shutdown_removes_own_address:
  assumes "wellKeyed api" and "getThisPod lbc = Inr thisPod"
    and "getPodAddress lbc thisPod = Inr addr" and "ingLister lbc = Inr ings"
  shows "onlyAddressRemoved addr api (snd (removeAddressFromLoadBalancerIngress lbc attempts api))
         \<and> (api_faults api = [] \<and> 0 < attempts \<and> api_Ingresses api key = Some old \<longrightarrow>
              api_Ingresses (snd (removeAddressFromLoadBalancerIngress lbc attempts api)) key =
                Some (if inScope lbc ings key then withoutAddress addr old else old))
         \<and> (\<forall>lbIng\<in>set (ing_Status (withoutAddress addr old)).
               lb_IP lbIng \<noteq> addr \<and> lb_Hostname lbIng \<noteq> addr)
         \<and> filter (\<lambda>lbIng. lb_IP lbIng \<noteq> addr \<and> lb_Hostname lbIng \<noteq> addr)
                  (ing_Status (withoutAddress addr old)) =
             filter (\<lambda>lbIng. lb_IP lbIng \<noteq> addr \<and> lb_Hostname lbIng \<noteq> addr) (ing_Status old)"
proof -
  have r: "snd (removeAddressFromLoadBalancerIngress lbc attempts api) =
           removeAddressLoop lbc attempts addr ings api"
    using assms(2-4) by (simp add: removeAddressFromLoadBalancerIngress_def)
  have 1: "onlyAddressRemoved addr api (removeAddressLoop lbc attempts addr ings api)"
    using removeAddressLoop_onlyAddressRemoved[OF assms(1)] by simp
  have 2: "api_Ingresses (removeAddressLoop lbc attempts addr ings api) key =
             Some (if inScope lbc ings key then withoutAddress addr old else old)"
    if nf: "api_faults api = []" and pos: "0 < attempts" and st: "api_Ingresses api key = Some old"
  proof -
    obtain n where "attempts = Suc n" using pos by (cases attempts) simp_all
    then show ?thesis using removeAddressLoop_nofault[OF assms(1) nf st] by simp
  qed
  have 3: "\<forall>lbIng\<in>set (ing_Status (withoutAddress addr old)).
               lb_IP lbIng \<noteq> addr \<and> lb_Hostname lbIng \<noteq> addr"
    by (simp add: withoutAddress_def removeAddressFromLBIngs_def)
  have 4: "filter (\<lambda>lbIng. lb_IP lbIng \<noteq> addr \<and> lb_Hostname lbIng \<noteq> addr)
                  (ing_Status (withoutAddress addr old)) =
             filter (\<lambda>lbIng. lb_IP lbIng \<noteq> addr \<and> lb_Hostname lbIng \<noteq> addr) (ing_Status old)"
    by (simp add: withoutAddress_def removeAddressFromLBIngs_def)
  show ?thesis unfolding r using 1 2 3 4 by blast
qed

text \<open>
  An instance of C9: three addresses are registered on an in-scope rules resource; after the
  shutdown pass the two addresses of the other replicas remain.
\<close>

theorem shutdown_removes_own_address_witness:
  "wellKeyed ex_api \<and> getThisPod ex_lbc = Inr ex_thisPod
   \<and> getPodAddress ex_lbc ex_thisPod = Inr ''192.0.2.1''
   \<and> ingLister ex_lbc = Inr [ex_ing1, ex_ingOther]
   \<and> api_faults ex_api = [] \<and> (0::nat) < 8
   \<and> api_Ingresses ex_api (''ns'', ''i1'') = Some ex_ing1
   \<and> inScope ex_lbc [ex_ing1, ex_ingOther] (''ns'', ''i1'')
   \<and> onlyAddressRemoved ''192.0.2.1'' ex_api (snd (removeAddressFromLoadBalancerIngress ex_lbc 8 ex_api))
   \<and> api_Ingresses (snd (removeAddressFromLoadBalancerIngress ex_lbc 8 ex_api)) (''ns'', ''i1'') =
       Some (withoutAddress ''192.0.2.1'' ex_ing1)
   \<and> ing_Status (withoutAddress ''192.0.2.1'' ex_ing1) = ex_statusAfter"
proof -
  have w: "wellKeyed ex_api"
    by (auto simp: wellKeyed_def ex_api_def ingressKey_def ex_ing1_def ex_ingOther_def
          split: if_splits)
  have p: "getThisPod ex_lbc = Inr ex_thisPod" by code_simp
  have a: "getPodAddress ex_lbc ex_thisPod = Inr ''192.0.2.1''" by code_simp
  have l: "ingLister ex_lbc = Inr [ex_ing1, ex_ingOther]" by code_simp
  have f: "api_faults ex_api = []" by code_simp
  have s: "api_Ingresses ex_api (''ns'', ''i1'') = Some ex_ing1" by code_simp
  have i: "inScope ex_lbc [ex_ing1, ex_ingOther] (''ns'', ''i1'')" by code_simp
  have r: "ing_Status (withoutAddress ''192.0.2.1'' ex_ing1) = ex_statusAfter" by code_simp
  show ?thesis
    using w p a l f s i r
      shutdown_removes_own_address[OF w p a l, of 8 "(''ns'', ''i1'')" ex_ing1]
    by simp
qed

end
